theory Spec2Isabelle
  imports Main "HOL-Library.Word"
begin

section \<open>The engine's data structures\<close>

text \<open>
  The binding \<^verbatim>\<open>src/wasm/binding/rime_wasm.cpp\<close> is compiled with Emscripten for
  a 32-bit WebAssembly target: \<^verbatim>\<open>int\<close> is a 32-bit two's complement integer and
  \<^verbatim>\<open>size_t\<close> is a 32-bit unsigned integer. Both are 32-bit words here; \<open>sint\<close> reads
  a word as an \<^verbatim>\<open>int\<close>, \<open>unat\<close> as a \<^verbatim>\<open>size_t\<close>, and the conversion between the
  two C types keeps the bits.

  A \<^verbatim>\<open>const char*\<close> is a \<open>string option\<close>: \<open>None\<close> is the null pointer and
  \<open>Some buf\<close> points at the bytes \<open>buf\<close>, which are followed by a terminating NUL.
\<close>

type_synonym c_int = "32 word"
type_synonym size_t = "32 word"
type_synonym c_str_ptr = "string option"
type_synonym RimeSessionId = nat

definition NUL :: char where
  "NUL = CHR 0x00"

text \<open>Reading \<^verbatim>\<open>p[i]\<close> of a NUL-terminated buffer: the terminator follows the bytes.\<close>

definition char_at :: "string \<Rightarrow> nat \<Rightarrow> char" where
  "char_at buf i = (if i < length buf then buf ! i else NUL)"

text \<open>
  The string a \<^verbatim>\<open>const char*\<close> denotes (what \<^verbatim>\<open>std::string(const char*)\<close> and the
  JSON string constructor copy): the bytes before the first NUL.
\<close>

definition c_str :: "string \<Rightarrow> string" where
  "c_str buf = takeWhile (\<lambda>c. c \<noteq> NUL) buf"

record RimeCommit =
  commit_data_size :: c_int
  commit_text :: c_str_ptr

record RimeCandidate =
  cand_text :: c_str_ptr
  comment :: c_str_ptr

record RimeComposition =
  comp_length :: c_int
  cursor_pos :: c_int
  sel_start :: c_int
  sel_end :: c_int
  preedit :: c_str_ptr

text \<open>
  \<^verbatim>\<open>candidates\<close> is a pointer to an array: the list holds the elements that
  can be read through it (the empty list for a null pointer).
\<close>

record RimeMenu =
  page_size :: c_int
  page_no :: c_int
  is_last_page :: c_int
  highlighted_candidate_index :: c_int
  num_candidates :: c_int
  candidates :: "RimeCandidate list"
  select_keys :: c_str_ptr

record RimeContext =
  context_data_size :: c_int
  composition :: RimeComposition
  menu :: RimeMenu
  commit_text_preview :: c_str_ptr
  select_labels :: "c_str_ptr list option"

record RimeTraits =
  traits_data_size :: c_int
  shared_data_dir :: c_str_ptr
  user_data_dir :: c_str_ptr
  distribution_name :: c_str_ptr
  distribution_code_name :: c_str_ptr
  distribution_version :: c_str_ptr
  app_name :: c_str_ptr

text \<open>The zero-initialised structures (\<^verbatim>\<open>= {0}\<close>).\<close>

definition zero_commit :: RimeCommit where
  "zero_commit = \<lparr>commit_data_size = 0, commit_text = None\<rparr>"

definition zero_composition :: RimeComposition where
  "zero_composition =
     \<lparr>comp_length = 0, cursor_pos = 0, sel_start = 0, sel_end = 0, preedit = None\<rparr>"

definition zero_menu :: RimeMenu where
  "zero_menu =
     \<lparr>page_size = 0, page_no = 0, is_last_page = 0, highlighted_candidate_index = 0,
      num_candidates = 0, candidates = [], select_keys = None\<rparr>"

definition zero_context :: RimeContext where
  "zero_context =
     \<lparr>context_data_size = 0, composition = zero_composition, menu = zero_menu,
      commit_text_preview = None, select_labels = None\<rparr>"

definition zero_traits :: RimeTraits where
  "zero_traits =
     \<lparr>traits_data_size = 0, shared_data_dir = None, user_data_dir = None, distribution_name = None,
      distribution_code_name = None, distribution_version = None, app_name = None\<rparr>"

section \<open>The engine capability\<close>

text \<open>
  \<^verbatim>\<open>RimeApi\<close> is a table of function pointers into the engine library. The engine
  is a black box: its state is a type parameter \<open>'e\<close>, and every entry of the table is
  a function on it. An entry that fills a structure through a pointer takes the
  structure's old value and returns the new one. Results the binding ignores are left
  out.
\<close>

record 'e RimeApi =
  api_setup :: "RimeTraits \<Rightarrow> 'e \<Rightarrow> 'e"
  initialize :: "RimeTraits \<Rightarrow> 'e \<Rightarrow> 'e"
  start_maintenance :: "bool \<Rightarrow> 'e \<Rightarrow> 'e"
  create_session :: "'e \<Rightarrow> RimeSessionId \<times> 'e"
  destroy_session :: "RimeSessionId \<Rightarrow> 'e \<Rightarrow> 'e"
  finalize :: "'e \<Rightarrow> 'e"
  simulate_key_sequence :: "RimeSessionId \<Rightarrow> string \<Rightarrow> 'e \<Rightarrow> 'e"
  select_candidate_on_current_page :: "RimeSessionId \<Rightarrow> size_t \<Rightarrow> 'e \<Rightarrow> 'e"
  change_page :: "RimeSessionId \<Rightarrow> bool \<Rightarrow> 'e \<Rightarrow> 'e"
  clear_composition :: "RimeSessionId \<Rightarrow> 'e \<Rightarrow> 'e"
  set_option :: "RimeSessionId \<Rightarrow> string \<Rightarrow> bool \<Rightarrow> 'e \<Rightarrow> 'e"
  get_commit :: "RimeSessionId \<Rightarrow> RimeCommit \<Rightarrow> 'e \<Rightarrow> (bool \<times> RimeCommit) \<times> 'e"
  free_commit :: "RimeCommit \<Rightarrow> 'e \<Rightarrow> RimeCommit \<times> 'e"
  get_context :: "RimeSessionId \<Rightarrow> RimeContext \<Rightarrow> 'e \<Rightarrow> RimeContext \<times> 'e"
  free_context :: "RimeContext \<Rightarrow> 'e \<Rightarrow> RimeContext \<times> 'e"
  get_version :: "'e \<Rightarrow> string"

text \<open>The calls made through the table, in the order they are made.\<close>

datatype api_call =
    Setup RimeTraits
  | Initialize RimeTraits
  | StartMaintenance bool
  | CreateSession RimeSessionId
  | DestroySession RimeSessionId
  | Finalize
  | SimulateKeySequence RimeSessionId string
  | SelectCandidateOnCurrentPage RimeSessionId size_t
  | ChangePage RimeSessionId bool
  | ClearComposition RimeSessionId
  | SetOption RimeSessionId string bool
  | GetCommit RimeSessionId
  | FreeCommit RimeCommit
  | GetContext RimeSessionId
  | FreeContext RimeContext
  | GetVersion

section \<open>The binding's state\<close>

text \<open>
  The globals of namespace \<^verbatim>\<open>rime_wasm\<close> (\<^verbatim>\<open>context\<close> is \<open>context_var\<close> here),
  together with the engine's own state and the history of calls into it.
\<close>

record 'e state =
  api :: "'e RimeApi option"
  session :: RimeSessionId
  commit :: RimeCommit
  context_var :: RimeContext
  json_buf :: string
  engine_started :: bool
  engine :: 'e
  calls :: "api_call list"

definition initial_state :: "'e \<Rightarrow> 'e state" where
  "initial_state e =
     \<lparr>api = None, session = 0, commit = zero_commit, context_var = zero_context,
      json_buf = [], engine_started = False, engine = e, calls = []\<rparr>"

section \<open>JSON values\<close>

text \<open>
  The tree \<^verbatim>\<open>boost::json\<close> builds. An object keeps its members in insertion order;
  \<^verbatim>\<open>obj[key] = v\<close> overwrites the member \<^verbatim>\<open>key\<close> when there is one and appends it
  otherwise.
\<close>

datatype json =
    JNull
  | JBool bool
  | JInt int
  | JString string
  | JArray "json list"
  | JObject "(string \<times> json) list"

type_synonym json_object = "(string \<times> json) list"

fun obj_set :: "string \<Rightarrow> json \<Rightarrow> json_object \<Rightarrow> json_object" where
  "obj_set k v [] = [(k, v)]"
| "obj_set k v ((k', v') # rest) =
     (if k' = k then (k, v) # rest else (k', v') # obj_set k v rest)"

fun obj_get :: "json_object \<Rightarrow> string \<Rightarrow> json option" where
  "obj_get [] k = None"
| "obj_get ((k', v') # rest) k = (if k' = k then Some v' else obj_get rest k)"

definition obj_keys :: "json_object \<Rightarrow> string list" where
  "obj_keys obj = map fst obj"

text \<open>
  \<^verbatim>\<open>boost::json::serialize\<close> belongs to a library outside this repository. Its
  output is modelled from the library's documented format: compact JSON text, members
  in insertion order, strings in double quotes with the quote, the backslash and the
  control characters escaped.
\<close>

definition hex_digit :: "nat \<Rightarrow> char" where
  "hex_digit n = (if n < 10 then char_of (48 + n) else char_of (87 + n))"

definition escape_char :: "char \<Rightarrow> string" where
  "escape_char c =
     (if c = CHR 0x22 then [CHR 0x5C, CHR 0x22]
      else if c = CHR 0x5C then [CHR 0x5C, CHR 0x5C]
      else if c = CHR 0x08 then [CHR 0x5C, CHR ''b'']
      else if c = CHR 0x0C then [CHR 0x5C, CHR ''f'']
      else if c = CHR 0x0A then [CHR 0x5C, CHR ''n'']
      else if c = CHR 0x0D then [CHR 0x5C, CHR ''r'']
      else if c = CHR 0x09 then [CHR 0x5C, CHR ''t'']
      else if of_char c < (32::nat) then
        [CHR 0x5C, CHR ''u'', CHR ''0'', CHR ''0'',
         hex_digit (of_char c div 16), hex_digit (of_char c mod 16)]
      else [c])"

definition quote :: "string \<Rightarrow> string" where
  "quote s = CHR 0x22 # concat (map escape_char s) @ [CHR 0x22]"

function show_nat :: "nat \<Rightarrow> string" where
  "show_nat n =
     (if n < 10 then [char_of (48 + n)]
      else show_nat (n div 10) @ [char_of (48 + n mod 10)])"
  by pat_completeness auto
termination
  by (relation "measure id") auto

declare show_nat.simps [simp del]

definition show_int :: "int \<Rightarrow> string" where
  "show_int i = (if i < 0 then CHR ''-'' # show_nat (nat (- i)) else show_nat (nat i))"

fun join :: "string list \<Rightarrow> string" where
  "join [] = []"
| "join [x] = x"
| "join (x # y # rest) = x @ CHR '','' # join (y # rest)"

fun serialize :: "json \<Rightarrow> string" where
  "serialize JNull = ''null''"
| "serialize (JBool b) = (if b then ''true'' else ''false'')"
| "serialize (JInt i) = show_int i"
| "serialize (JString s) = quote s"
| "serialize (JArray xs) = CHR ''['' # join (map serialize xs) @ [CHR '']'']"
| "serialize (JObject kvs) =
     CHR ''{'' # join (map (\<lambda>kv. quote (fst kv) @ CHR '':'' # serialize (snd kv)) kvs)
       @ [CHR ''}'']"

section \<open>Faults\<close>

text \<open>
  The ways the binding can stop without returning: \<^verbatim>\<open>std::string::substr\<close> throws
  \<^verbatim>\<open>std::out_of_range\<close> when its position is beyond the string and nothing catches
  it; a read beyond the end of an array of the engine's, or through the null
  \<^verbatim>\<open>api\<close> pointer, has no defined result.
\<close>

datatype fault = OutOfRange | OutOfBounds | NullDeref

text \<open>
  \<^verbatim>\<open>s.substr(pos, n)\<close>: the \<^verbatim>\<open>n\<close> characters from \<^verbatim>\<open>pos\<close>, or fewer when the
  string ends first. \<^verbatim>\<open>s.substr(pos)\<close> has the default count \<^verbatim>\<open>npos\<close>, which no
  string's size reaches: the characters from \<^verbatim>\<open>pos\<close> to the end.
\<close>

definition substr :: "string \<Rightarrow> size_t \<Rightarrow> size_t \<Rightarrow> fault + string" where
  "substr s pos n =
     (if length s < unat pos then Inl OutOfRange
      else Inr (take (unat n) (drop (unat pos) s)))"

definition substr_from :: "string \<Rightarrow> size_t \<Rightarrow> fault + string" where
  "substr_from s pos =
     (if length s < unat pos then Inl OutOfRange else Inr (drop (unat pos) s))"

section \<open>Calls through the engine table\<close>

text \<open>
  Each \<^verbatim>\<open>api->f(...)\<close> of the source: the engine's state and the structure passed by
  pointer are updated, and the call is appended to the history.
\<close>

definition call_free_commit :: "'e RimeApi \<Rightarrow> 'e state \<Rightarrow> 'e state" where
  "call_free_commit a st =
     (case free_commit a (commit st) (engine st) of
        (c, e) \<Rightarrow> st\<lparr>commit := c, engine := e, calls := calls st @ [FreeCommit (commit st)]\<rparr>)"

definition call_get_commit :: "'e RimeApi \<Rightarrow> 'e state \<Rightarrow> bool \<times> 'e state" where
  "call_get_commit a st =
     (case get_commit a (session st) (commit st) (engine st) of
        ((has_commit, c), e) \<Rightarrow>
          (has_commit,
           st\<lparr>commit := c, engine := e, calls := calls st @ [GetCommit (session st)]\<rparr>))"

definition call_free_context :: "'e RimeApi \<Rightarrow> 'e state \<Rightarrow> 'e state" where
  "call_free_context a st =
     (case free_context a (context_var st) (engine st) of
        (c, e) \<Rightarrow>
          st\<lparr>context_var := c, engine := e,
             calls := calls st @ [FreeContext (context_var st)]\<rparr>)"

definition call_get_context :: "'e RimeApi \<Rightarrow> 'e state \<Rightarrow> 'e state" where
  "call_get_context a st =
     (case get_context a (session st) (context_var st) (engine st) of
        (c, e) \<Rightarrow>
          st\<lparr>context_var := c, engine := e, calls := calls st @ [GetContext (session st)]\<rparr>)"

definition call_engine :: "api_call \<Rightarrow> ('e \<Rightarrow> 'e) \<Rightarrow> 'e state \<Rightarrow> 'e state" where
  "call_engine ev f st = st\<lparr>engine := f (engine st), calls := calls st @ [ev]\<rparr>"

section \<open>build\_state\<close>

text \<open>A \<^verbatim>\<open>const char*\<close> stored as a JSON string, \<^verbatim>\<open>p ? p : ""\<close>.\<close>

definition str_or_empty :: "c_str_ptr \<Rightarrow> json" where
  "str_or_empty p = (case p of None \<Rightarrow> JString [] | Some buf \<Rightarrow> JString (c_str buf))"

definition cand_json :: "RimeCandidate \<Rightarrow> json" where
  "cand_json c =
     JObject (obj_set ''comment'' (str_or_empty (comment c))
               (obj_set ''text'' (str_or_empty (cand_text c)) []))"

text \<open>
  The loop over the candidates (source lines 53 to 64): \<open>i\<close> is the loop variable,
  \<open>acc\<close> the array built so far.
\<close>

function candidates_loop :: "RimeMenu \<Rightarrow> nat \<Rightarrow> json list \<Rightarrow> fault + json list" where
  "candidates_loop m i acc =
     (if int i < sint (num_candidates m) then
        (if i < length (candidates m)
         then candidates_loop m (Suc i) (acc @ [cand_json (candidates m ! i)])
         else Inl OutOfBounds)
      else Inr acc)"
  by pat_completeness auto
termination
  by (relation "measure (\<lambda>(m, i, acc). nat (sint (num_candidates m)) - i)") auto

declare candidates_loop.simps [simp del]

text \<open>The loop over the explicit labels (source lines 73 to 77).\<close>

function labels_loop :: "c_str_ptr list \<Rightarrow> c_int \<Rightarrow> nat \<Rightarrow> json list \<Rightarrow> fault + json list" where
  "labels_loop ls n i acc =
     (if int i < sint n then
        (if i < length ls
         then labels_loop ls n (Suc i) (acc @ [str_or_empty (ls ! i)])
         else Inl OutOfBounds)
      else Inr acc)"
  by pat_completeness auto
termination
  by (relation "measure (\<lambda>(ls, n, i, acc). nat (sint n) - i)") auto

declare labels_loop.simps [simp del]

text \<open>
  The loop over the select keys (source lines 80 to 84): it stops at the terminating
  NUL or at \<^verbatim>\<open>num_candidates\<close>, whichever comes first.
\<close>

function keys_loop :: "string \<Rightarrow> c_int \<Rightarrow> nat \<Rightarrow> json list \<Rightarrow> json list" where
  "keys_loop keys n i acc =
     (if char_at keys i \<noteq> NUL \<and> int i < sint n
      then keys_loop keys n (Suc i) (acc @ [JString [char_at keys i]])
      else acc)"
  by pat_completeness auto
termination
  by (relation "measure (\<lambda>(keys, n, i, acc). nat (sint n) - i)") auto

declare keys_loop.simps [simp del]

definition select_labels_json :: "RimeContext \<Rightarrow> fault + json list" where
  "select_labels_json ctx =
     (case select_labels ctx of
        Some ls \<Rightarrow> labels_loop ls (num_candidates (menu ctx)) 0 []
      | None \<Rightarrow>
          (case select_keys (menu ctx) of
             Some keys \<Rightarrow> Inr (keys_loop keys (num_candidates (menu ctx)) 0 [])
           | None \<Rightarrow> Inr []))"

text \<open>
  Source lines 40 to 97: the fields read from the context, added to \<open>result\<close>.
\<close>

definition context_fields :: "RimeContext \<Rightarrow> json_object \<Rightarrow> fault + json_object" where
  "context_fields ctx result =
     (if 0 < sint (comp_length (composition ctx)) \<and> preedit (composition ctx) \<noteq> None then
        (let p = c_str (the (preedit (composition ctx)));
             ss = sel_start (composition ctx);
             se = sel_end (composition ctx)
         in case substr p 0 ss of Inl f \<Rightarrow> Inl f | Inr head \<Rightarrow>
            (case substr p ss (se - ss) of Inl f \<Rightarrow> Inl f | Inr body \<Rightarrow>
            (case substr_from p se of Inl f \<Rightarrow> Inl f | Inr tail \<Rightarrow>
            (case candidates_loop (menu ctx) 0 [] of Inl f \<Rightarrow> Inl f | Inr cands \<Rightarrow>
            (case select_labels_json ctx of Inl f \<Rightarrow> Inl f | Inr labels \<Rightarrow>
               Inr (obj_set ''selectLabels'' (JArray labels)
                   (obj_set ''highlightedIndex''
                      (JInt (sint (highlighted_candidate_index (menu ctx))))
                   (obj_set ''isLastPage'' (JBool (is_last_page (menu ctx) \<noteq> 0))
                   (obj_set ''pageNo'' (JInt (sint (page_no (menu ctx))))
                   (obj_set ''candidates'' (JArray cands)
                   (obj_set ''cursorPos'' (JInt (sint (cursor_pos (composition ctx))))
                   (obj_set ''preeditTail'' (JString tail)
                   (obj_set ''preeditBody'' (JString body)
                   (obj_set ''preeditHead'' (JString head) result))))))))))))))
      else
        Inr (obj_set ''selectLabels'' (JArray [])
            (obj_set ''highlightedIndex'' (JInt 0)
            (obj_set ''isLastPage'' (JBool True)
            (obj_set ''pageNo'' (JInt 0)
            (obj_set ''candidates'' (JArray [])
            (obj_set ''cursorPos'' (JInt 0)
            (obj_set ''preeditTail'' (JString [])
            (obj_set ''preeditBody'' (JString [])
            (obj_set ''preeditHead'' (JString []) result))))))))))"

text \<open>Source lines 27 to 34: the \<^verbatim>\<open>committed\<close> member.\<close>

definition committed_json :: "bool \<Rightarrow> RimeCommit \<Rightarrow> json" where
  "committed_json has_commit c =
     (if has_commit \<and> commit_text c \<noteq> None then JString (c_str (the (commit_text c)))
      else JNull)"

definition build_state :: "'e state \<Rightarrow> (fault + json_object) \<times> 'e state" where
  "build_state st =
     (case api st of
        None \<Rightarrow> (Inl NullDeref, st)
      | Some a \<Rightarrow>
          (case call_get_commit a (call_free_commit a st) of
             (has_commit, st2) \<Rightarrow>
               (let result = obj_set ''committed'' (committed_json has_commit (commit st2)) [];
                    st4 = call_get_context a (call_free_context a st2)
                in (context_fields (context_var st4) result, st4))))"

definition to_json_cstr :: "json_object \<Rightarrow> 'e state \<Rightarrow> string \<times> 'e state" where
  "to_json_cstr obj st =
     (let st' = st\<lparr>json_buf := serialize (JObject obj)\<rparr> in (json_buf st', st'))"

text \<open>\<^verbatim>\<open>return to_json_cstr(build_state());\<close>\<close>

definition return_state :: "'e state \<Rightarrow> (fault + string) \<times> 'e state" where
  "return_state st =
     (case build_state st of
        (Inl f, st') \<Rightarrow> (Inl f, st')
      | (Inr obj, st') \<Rightarrow> (case to_json_cstr obj st' of (t, st'') \<Rightarrow> (Inr t, st'')))"

section \<open>The exported operations\<close>

text \<open>
  What \<^verbatim>\<open>rime_api.h\<close> and the linked engine library provide to \<^verbatim>\<open>rime_wasm_init\<close>:
  the result of \<^verbatim>\<open>rime_get_api()\<close> and the values the macros \<^verbatim>\<open>RIME_STRUCT\<close> and
  \<^verbatim>\<open>RIME_STRUCT_INIT\<close> store in the \<^verbatim>\<open>data_size\<close> member of each structure. The
  header is outside the source files, so they are parameters.
\<close>

record 'e rime_lib =
  rime_get_api :: "'e RimeApi option"
  traits_size :: c_int
  commit_size :: c_int
  context_size :: c_int

definition init_traits :: RimeTraits where
  "init_traits =
     zero_traits\<lparr>shared_data_dir := Some ''/rime'',
                 user_data_dir := Some ''/rime_user'',
                 app_name := Some ''rime-wasm'',
                 distribution_name := Some ''Rime WASM'',
                 distribution_code_name := Some ''rime-wasm'',
                 distribution_version := Some ''1.16.1''\<rparr>"

definition rime_wasm_init :: "'e rime_lib \<Rightarrow> 'e state \<Rightarrow> int \<times> 'e state" where
  "rime_wasm_init lib st0 =
     (let st1 = st0\<lparr>api := rime_get_api lib\<rparr> in
      case api st1 of
        None \<Rightarrow> (- 1, st1)
      | Some a \<Rightarrow>
          (let traits = init_traits\<lparr>traits_data_size := traits_size lib\<rparr>;
               st2 = call_engine (Setup traits) (api_setup a traits) st1;
               st3 = call_engine (Initialize traits) (initialize a traits) st2;
               st4 = call_engine (StartMaintenance True) (start_maintenance a True) st3
           in case create_session a (engine st4) of
                (s, e) \<Rightarrow>
                  (let st5 = st4\<lparr>session := s, engine := e,
                                 calls := calls st4 @ [CreateSession s]\<rparr>
                   in if s = 0 then (- 2, st5)
                      else (0, st5\<lparr>commit := (commit st5)\<lparr>commit_data_size := commit_size lib\<rparr>,
                                   context_var :=
                                     (context_var st5)\<lparr>context_data_size := context_size lib\<rparr>,
                                   engine_started := True\<rparr>))))"

definition rime_wasm_process_input :: "c_str_ptr \<Rightarrow> 'e state \<Rightarrow> (fault + string) \<times> 'e state" where
  "rime_wasm_process_input keys st =
     (case (api st, keys) of
        (Some a, Some ks) \<Rightarrow>
          (if session st = 0 then (Inr ''{}'', st)
           else return_state
                  (call_engine (SimulateKeySequence (session st) ks)
                     (simulate_key_sequence a (session st) ks) st))
      | _ \<Rightarrow> (Inr ''{}'', st))"

definition rime_wasm_pick_candidate :: "c_int \<Rightarrow> 'e state \<Rightarrow> (fault + string) \<times> 'e state" where
  "rime_wasm_pick_candidate index st =
     (case api st of
        None \<Rightarrow> (Inr ''{}'', st)
      | Some a \<Rightarrow>
          (if session st = 0 then (Inr ''{}'', st)
           else return_state
                  (call_engine (SelectCandidateOnCurrentPage (session st) index)
                     (select_candidate_on_current_page a (session st) index) st)))"

definition rime_wasm_flip_page :: "c_int \<Rightarrow> 'e state \<Rightarrow> (fault + string) \<times> 'e state" where
  "rime_wasm_flip_page backward st =
     (case api st of
        None \<Rightarrow> (Inr ''{}'', st)
      | Some a \<Rightarrow>
          (if session st = 0 then (Inr ''{}'', st)
           else return_state
                  (call_engine (ChangePage (session st) (backward \<noteq> 0))
                     (change_page a (session st) (backward \<noteq> 0)) st)))"

definition rime_wasm_clear_input :: "'e state \<Rightarrow> 'e state" where
  "rime_wasm_clear_input st =
     (case api st of
        None \<Rightarrow> st
      | Some a \<Rightarrow>
          (if session st = 0 then st
           else call_engine (ClearComposition (session st))
                  (clear_composition a (session st)) st))"

definition rime_wasm_set_option :: "c_str_ptr \<Rightarrow> c_int \<Rightarrow> 'e state \<Rightarrow> 'e state" where
  "rime_wasm_set_option option' v st =
     (case (api st, option') of
        (Some a, Some opt) \<Rightarrow>
          (if session st = 0 then st
           else call_engine (SetOption (session st) opt (v \<noteq> 0))
                  (set_option a (session st) opt (v \<noteq> 0)) st)
      | _ \<Rightarrow> st)"

definition rime_wasm_get_version :: "'e state \<Rightarrow> string \<times> 'e state" where
  "rime_wasm_get_version st =
     (case api st of
        None \<Rightarrow> (''unknown'', st)
      | Some a \<Rightarrow> (get_version a (engine st), st\<lparr>calls := calls st @ [GetVersion]\<rparr>))"

definition rime_wasm_destroy :: "'e state \<Rightarrow> 'e state" where
  "rime_wasm_destroy st =
     (case api st of
        None \<Rightarrow> st
      | Some a \<Rightarrow>
          (let st1 = (if session st \<noteq> 0
                      then (call_engine (DestroySession (session st))
                              (destroy_session a (session st)) st)\<lparr>session := 0\<rparr>
                      else st);
               st2 = call_engine Finalize (finalize a) st1
           in st2\<lparr>engine_started := False\<rparr>))"

section \<open>Predicates on contexts and snapshots\<close>

text \<open>The composition is present: the condition of the branch at source line 40.\<close>

definition composition_present :: "RimeContext \<Rightarrow> bool" where
  "composition_present ctx =
     (0 < sint (comp_length (composition ctx)) \<and> preedit (composition ctx) \<noteq> None)"

text \<open>The preedit as the owned string of source line 41.\<close>

definition preedit_string :: "RimeContext \<Rightarrow> string" where
  "preedit_string ctx =
     (case preedit (composition ctx) of None \<Rightarrow> [] | Some buf \<Rightarrow> c_str buf)"

text \<open>
  The arrays of the context hold an element for every candidate index: the candidate
  array, and the label array when there is one.
\<close>

definition arrays_ok :: "RimeContext \<Rightarrow> bool" where
  "arrays_ok ctx =
     (nat (sint (num_candidates (menu ctx))) \<le> length (candidates (menu ctx)) \<and>
      (case select_labels ctx of
         None \<Rightarrow> True
       | Some ls \<Rightarrow> nat (sint (num_candidates (menu ctx))) \<le> length ls))"

text \<open>
  The context is one \<^verbatim>\<open>build_state\<close> can project: when the composition is present, both
  selection offsets, read as \<^verbatim>\<open>size_t\<close>, lie within the preedit and the arrays hold an
  element for every candidate index.
\<close>

definition context_ok :: "RimeContext \<Rightarrow> bool" where
  "context_ok ctx =
     (if composition_present ctx
      then unat (sel_start (composition ctx)) \<le> length (preedit_string ctx) \<and>
           unat (sel_end (composition ctx)) \<le> length (preedit_string ctx) \<and>
           arrays_ok ctx
      else True)"

text \<open>The selection is a range of byte offsets into the preedit.\<close>

definition selection_ok :: "RimeContext \<Rightarrow> bool" where
  "selection_ok ctx =
     (0 \<le> sint (sel_start (composition ctx)) \<and>
      sint (sel_start (composition ctx)) \<le> sint (sel_end (composition ctx)) \<and>
      sint (sel_end (composition ctx)) \<le> int (length (preedit_string ctx)))"

text \<open>The keys of a snapshot, in the order \<^verbatim>\<open>build_state\<close> adds them.\<close>

definition snapshot_keys :: "string list" where
  "snapshot_keys =
     [''committed'', ''preeditHead'', ''preeditBody'', ''preeditTail'', ''cursorPos'',
      ''candidates'', ''pageNo'', ''isLastPage'', ''highlightedIndex'', ''selectLabels'']"

definition is_string_or_null :: "json option \<Rightarrow> bool" where
  "is_string_or_null v =
     (case v of Some JNull \<Rightarrow> True | Some (JString s) \<Rightarrow> True | _ \<Rightarrow> False)"

text \<open>
  An object is a snapshot: its keys are the ten snapshot keys and \<^verbatim>\<open>committed\<close> is a
  string or null.
\<close>

definition is_snapshot :: "json_object \<Rightarrow> bool" where
  "is_snapshot obj =
     (obj_keys obj = snapshot_keys \<and> is_string_or_null (obj_get obj ''committed''))"

text \<open>The guard of the exported operations: the capability and a session are there.\<close>

definition live :: "'e state \<Rightarrow> bool" where
  "live st = (api st \<noteq> None \<and> session st \<noteq> 0)"

text \<open>The calls of a history that create or destroy a session.\<close>

fun session_calls :: "api_call list \<Rightarrow> api_call list" where
  "session_calls [] = []"
| "session_calls (CreateSession s # cs) = CreateSession s # session_calls cs"
| "session_calls (DestroySession s # cs) = DestroySession s # session_calls cs"
| "session_calls (c # cs) = session_calls cs"

definition array_length :: "json option \<Rightarrow> nat option" where
  "array_length v = (case v of Some (JArray xs) \<Rightarrow> Some (length xs) | _ \<Rightarrow> None)"

text \<open>What the context acquired by a projection is, and the commit it acquired.\<close>

definition acquired_context :: "'e state \<Rightarrow> RimeContext" where
  "acquired_context st = context_var (snd (build_state st))"

definition acquired_commit :: "'e state \<Rightarrow> bool \<times> RimeCommit" where
  "acquired_commit st =
     (case api st of
        None \<Rightarrow> (False, commit st)
      | Some a \<Rightarrow>
          (case call_get_commit a (call_free_commit a st) of
             (has_commit, st2) \<Rightarrow> (has_commit, commit st2)))"

section \<open>A scripted engine\<close>

text \<open>
  An engine for concrete runs: it numbers its sessions from 1, keeps the list of the
  live ones, counts the calls of \<^verbatim>\<open>finalize\<close>, and answers \<^verbatim>\<open>get_commit\<close> and
  \<^verbatim>\<open>get_context\<close> with the given values.
\<close>

record scripted =
  live_sessions :: "RimeSessionId list"
  next_session :: RimeSessionId
  finalize_calls :: nat

definition fresh_engine :: scripted where
  "fresh_engine = \<lparr>live_sessions = [], next_session = 1, finalize_calls = 0\<rparr>"

definition scripted_api :: "bool \<Rightarrow> c_str_ptr \<Rightarrow> RimeContext \<Rightarrow> scripted RimeApi" where
  "scripted_api has_commit txt ctx =
     \<lparr>api_setup = (\<lambda>t e. e),
      initialize = (\<lambda>t e. e),
      start_maintenance = (\<lambda>b e. e),
      create_session =
        (\<lambda>e. (next_session e,
               e\<lparr>live_sessions := live_sessions e @ [next_session e],
                 next_session := Suc (next_session e)\<rparr>)),
      destroy_session = (\<lambda>s e. e\<lparr>live_sessions := removeAll s (live_sessions e)\<rparr>),
      finalize = (\<lambda>e. e\<lparr>finalize_calls := Suc (finalize_calls e)\<rparr>),
      simulate_key_sequence = (\<lambda>s ks e. e),
      select_candidate_on_current_page = (\<lambda>s i e. e),
      change_page = (\<lambda>s b e. e),
      clear_composition = (\<lambda>s e. e),
      set_option = (\<lambda>s opt b e. e),
      get_commit = (\<lambda>s c e. ((has_commit, c\<lparr>commit_text := txt\<rparr>), e)),
      free_commit = (\<lambda>c e. (c\<lparr>commit_text := None\<rparr>, e)),
      get_context = (\<lambda>s c e. (ctx, e)),
      free_context = (\<lambda>c e. (zero_context\<lparr>context_data_size := context_data_size c\<rparr>, e)),
      get_version = (\<lambda>e. ''1.16.1'')\<rparr>"

definition scripted_lib :: "bool \<Rightarrow> c_str_ptr \<Rightarrow> RimeContext \<Rightarrow> scripted rime_lib" where
  "scripted_lib has_commit txt ctx =
     \<lparr>rime_get_api = Some (scripted_api has_commit txt ctx),
      traits_size = 0, commit_size = 4, context_size = 56\<rparr>"

text \<open>A state with a live session of the scripted engine.\<close>

definition scripted_state :: "bool \<Rightarrow> c_str_ptr \<Rightarrow> RimeContext \<Rightarrow> scripted state" where
  "scripted_state has_commit txt ctx =
     \<lparr>api = Some (scripted_api has_commit txt ctx), session = 1,
      commit = zero_commit, context_var = zero_context, json_buf = [],
      engine_started = True,
      engine = \<lparr>live_sessions = [1], next_session = 2, finalize_calls = 0\<rparr>,
      calls = []\<rparr>"

text \<open>Contexts for concrete runs.\<close>

definition example_menu :: RimeMenu where
  "example_menu =
     \<lparr>page_size = 5, page_no = 0, is_last_page = 1, highlighted_candidate_index = 0,
      num_candidates = 2,
      candidates = [\<lparr>cand_text = Some ''ni'', comment = None\<rparr>,
                    \<lparr>cand_text = Some ''hao'', comment = Some ''h''\<rparr>],
      select_keys = None\<rparr>"

definition example_context :: RimeContext where
  "example_context =
     \<lparr>context_data_size = 56,
      composition = \<lparr>comp_length = 5, cursor_pos = 5, sel_start = 1, sel_end = 3,
                     preedit = Some ''nihao''\<rparr>,
      menu = example_menu,
      commit_text_preview = None,
      select_labels = None\<rparr>"

text \<open>The state after a first successful \<^verbatim>\<open>rime_wasm_init\<close> with the scripted engine.\<close>

definition started_state :: "scripted state" where
  "started_state =
     snd (rime_wasm_init (scripted_lib False None example_context) (initial_state fresh_engine))"

definition keys_context :: RimeContext where
  "keys_context = example_context\<lparr>menu := example_menu\<lparr>select_keys := Some ''1''\<rparr>\<rparr>"

definition labels_context :: RimeContext where
  "labels_context = example_context\<lparr>select_labels := Some [None, Some ''b'', Some ''c'']\<rparr>"

text \<open>
  A recording engine: its state is the list of the calls it received, each with the
  arguments it was given. It answers \<^verbatim>\<open>get_commit\<close> and \<^verbatim>\<open>get_context\<close> with the
  given values, and a state with a live session of it holds a commit and a context
  from an earlier projection.
\<close>

definition recording_api :: "bool \<Rightarrow> c_str_ptr \<Rightarrow> RimeContext \<Rightarrow> (api_call list) RimeApi" where
  "recording_api has_commit txt ctx =
     \<lparr>api_setup = (\<lambda>t e. e @ [Setup t]),
      initialize = (\<lambda>t e. e @ [Initialize t]),
      start_maintenance = (\<lambda>b e. e @ [StartMaintenance b]),
      create_session = (\<lambda>e. (1, e @ [CreateSession 1])),
      destroy_session = (\<lambda>s e. e @ [DestroySession s]),
      finalize = (\<lambda>e. e @ [Finalize]),
      simulate_key_sequence = (\<lambda>s ks e. e @ [SimulateKeySequence s ks]),
      select_candidate_on_current_page = (\<lambda>s i e. e @ [SelectCandidateOnCurrentPage s i]),
      change_page = (\<lambda>s b e. e @ [ChangePage s b]),
      clear_composition = (\<lambda>s e. e @ [ClearComposition s]),
      set_option = (\<lambda>s opt b e. e @ [SetOption s opt b]),
      get_commit = (\<lambda>s c e. ((has_commit, c\<lparr>commit_text := txt\<rparr>), e @ [GetCommit s])),
      free_commit = (\<lambda>c e. (c\<lparr>commit_text := None\<rparr>, e @ [FreeCommit c])),
      get_context = (\<lambda>s c e. (ctx, e @ [GetContext s])),
      free_context = (\<lambda>c e. (zero_context, e @ [FreeContext c])),
      get_version = (\<lambda>e. ''1.16.1'')\<rparr>"

definition held_commit :: RimeCommit where
  "held_commit = \<lparr>commit_data_size = 4, commit_text = Some ''old''\<rparr>"

definition recording_state :: "bool \<Rightarrow> c_str_ptr \<Rightarrow> RimeContext \<Rightarrow> (api_call list) state" where
  "recording_state has_commit txt ctx =
     \<lparr>api = Some (recording_api has_commit txt ctx), session = 1,
      commit = held_commit, context_var = keys_context, json_buf = [],
      engine_started = True, engine = [], calls = []\<rparr>"

text \<open>A context whose selection ends beyond the preedit.\<close>

definition bad_context :: RimeContext where
  "bad_context = example_context\<lparr>composition := (composition example_context)\<lparr>sel_end := 6\<rparr>\<rparr>"

section \<open>Objects\<close>

lemma obj_get_obj_set:
  "obj_get (obj_set k v obj) k' = (if k' = k then Some v else obj_get obj k')"
  by (induction obj) auto

lemma obj_keys_obj_set:
  "obj_keys (obj_set k v obj) = (if k \<in> set (obj_keys obj) then obj_keys obj else obj_keys obj @ [k])"
  by (induction obj) (force simp: obj_keys_def)+

section \<open>The loops of build\_state\<close>

lemma candidates_loop_ok:
  "i \<le> nat (sint (num_candidates m)) \<Longrightarrow> nat (sint (num_candidates m)) \<le> length (candidates m) \<Longrightarrow>
   candidates_loop m i acc =
     Inr (acc @ map cand_json (take (nat (sint (num_candidates m)) - i) (drop i (candidates m))))"
proof (induction m i acc rule: candidates_loop.induct)
  case (1 m i acc)
  show ?case
  proof (cases "int i < sint (num_candidates m)")
    case True
    then have lt: "i < nat (sint (num_candidates m))" by linarith
    with "1.prems" have il: "i < length (candidates m)" by linarith
    have step: "take (nat (sint (num_candidates m)) - i) (drop i (candidates m)) =
          candidates m ! i # take (nat (sint (num_candidates m)) - Suc i) (drop (Suc i) (candidates m))"
      using lt il by (metis Cons_nth_drop_Suc Suc_diff_Suc take_Suc_Cons)
    have "candidates_loop m i acc = candidates_loop m (Suc i) (acc @ [cand_json (candidates m ! i)])"
      using True il by (subst candidates_loop.simps) simp
    also have "\<dots> = Inr ((acc @ [cand_json (candidates m ! i)]) @
        map cand_json (take (nat (sint (num_candidates m)) - Suc i) (drop (Suc i) (candidates m))))"
      using "1.IH"[OF True il] lt "1.prems" by simp
    finally show ?thesis using step by simp
  next
    case False
    then have "nat (sint (num_candidates m)) - i = 0" by linarith
    with False show ?thesis by (subst candidates_loop.simps) simp
  qed
qed

lemma candidates_loop_fault:
  "i \<le> length (candidates m) \<Longrightarrow> length (candidates m) < nat (sint (num_candidates m)) \<Longrightarrow>
   candidates_loop m i acc = Inl OutOfBounds"
proof (induction m i acc rule: candidates_loop.induct)
  case (1 m i acc)
  show ?case
  proof (cases "i < length (candidates m)")
    case True
    then have c: "int i < sint (num_candidates m)" using "1.prems" by linarith
    have "candidates_loop m i acc = candidates_loop m (Suc i) (acc @ [cand_json (candidates m ! i)])"
      using True c by (subst candidates_loop.simps) simp
    also have "\<dots> = Inl OutOfBounds" using "1.IH"[OF c True] True "1.prems" by simp
    finally show ?thesis .
  next
    case False
    then have "i = length (candidates m)" using "1.prems" by simp
    then have c: "int i < sint (num_candidates m)" using "1.prems" by linarith
    then show ?thesis using False by (subst candidates_loop.simps) simp
  qed
qed

lemma labels_loop_ok:
  "i \<le> nat (sint n) \<Longrightarrow> nat (sint n) \<le> length ls \<Longrightarrow>
   labels_loop ls n i acc = Inr (acc @ map str_or_empty (take (nat (sint n) - i) (drop i ls)))"
proof (induction ls n i acc rule: labels_loop.induct)
  case (1 ls n i acc)
  show ?case
  proof (cases "int i < sint n")
    case True
    then have lt: "i < nat (sint n)" by linarith
    with "1.prems" have il: "i < length ls" by linarith
    have step: "take (nat (sint n) - i) (drop i ls) =
          ls ! i # take (nat (sint n) - Suc i) (drop (Suc i) ls)"
      using lt il by (metis Cons_nth_drop_Suc Suc_diff_Suc take_Suc_Cons)
    have "labels_loop ls n i acc = labels_loop ls n (Suc i) (acc @ [str_or_empty (ls ! i)])"
      using True il by (subst labels_loop.simps) simp
    also have "\<dots> = Inr ((acc @ [str_or_empty (ls ! i)]) @
        map str_or_empty (take (nat (sint n) - Suc i) (drop (Suc i) ls)))"
      using "1.IH"[OF True il] lt "1.prems" by simp
    finally show ?thesis using step by simp
  next
    case False
    then have "nat (sint n) - i = 0" by linarith
    with False show ?thesis by (subst labels_loop.simps) simp
  qed
qed

lemma labels_loop_fault:
  "i \<le> length ls \<Longrightarrow> length ls < nat (sint n) \<Longrightarrow> labels_loop ls n i acc = Inl OutOfBounds"
proof (induction ls n i acc rule: labels_loop.induct)
  case (1 ls n i acc)
  show ?case
  proof (cases "i < length ls")
    case True
    then have c: "int i < sint n" using "1.prems" by linarith
    have "labels_loop ls n i acc = labels_loop ls n (Suc i) (acc @ [str_or_empty (ls ! i)])"
      using True c by (subst labels_loop.simps) simp
    also have "\<dots> = Inl OutOfBounds" using "1.IH"[OF c True] True "1.prems" by simp
    finally show ?thesis .
  next
    case False
    then have "i = length ls" using "1.prems" by simp
    then have c: "int i < sint n" using "1.prems" by linarith
    then show ?thesis using False by (subst labels_loop.simps) simp
  qed
qed

lemma c_str_nth:
  assumes "i < length (c_str keys)"
  shows "i < length keys" and "keys ! i \<noteq> NUL" and "c_str keys ! i = keys ! i"
proof -
  let ?t = "takeWhile (\<lambda>c. c \<noteq> NUL) keys"
  have il: "i < length ?t" using assms by (simp add: c_str_def)
  have "length ?t \<le> length keys" by (rule length_takeWhile_le)
  with il show "i < length keys" by simp
  have eq: "?t ! i = keys ! i" using il by (rule takeWhile_nth)
  have "?t ! i \<in> set ?t" using il by (rule nth_mem)
  then have "?t ! i \<noteq> NUL" by (auto dest: set_takeWhileD)
  with eq show "keys ! i \<noteq> NUL" by simp
  from eq show "c_str keys ! i = keys ! i" by (simp add: c_str_def)
qed

lemma char_at_c_str:
  assumes "i \<le> length (c_str keys)"
  shows "(char_at keys i \<noteq> NUL) = (i < length (c_str keys))"
proof (cases "i < length (c_str keys)")
  case True
  then show ?thesis using c_str_nth[OF True] by (simp add: char_at_def)
next
  case False
  with assms have eq: "i = length (takeWhile (\<lambda>c. c \<noteq> NUL) keys)" by (simp add: c_str_def)
  show ?thesis
  proof (cases "i < length keys")
    case True
    then have "\<not> (keys ! i \<noteq> NUL)" unfolding eq by (rule nth_length_takeWhile)
    then show ?thesis using True False by (simp add: char_at_def)
  next
    case nolen: False
    then show ?thesis using False by (simp add: char_at_def)
  qed
qed

lemma char_at_c_str_nth:
  "i < length (c_str keys) \<Longrightarrow> char_at keys i = c_str keys ! i"
  using c_str_nth[of i keys] by (simp add: char_at_def)

lemma keys_loop_eq:
  "i \<le> length (c_str keys) \<Longrightarrow>
   keys_loop keys n i acc =
     acc @ map (\<lambda>c. JString [c]) (take (nat (sint n) - i) (drop i (c_str keys)))"
proof (induction keys n i acc rule: keys_loop.induct)
  case (1 keys n i acc)
  show ?case
  proof (cases "char_at keys i \<noteq> NUL \<and> int i < sint n")
    case True
    then have il: "i < length (c_str keys)" using char_at_c_str[OF "1.prems"] by simp
    from True have lt: "i < nat (sint n)" by linarith
    have step: "take (nat (sint n) - i) (drop i (c_str keys)) =
          c_str keys ! i # take (nat (sint n) - Suc i) (drop (Suc i) (c_str keys))"
      using lt il by (metis Cons_nth_drop_Suc Suc_diff_Suc take_Suc_Cons)
    have "keys_loop keys n i acc = keys_loop keys n (Suc i) (acc @ [JString [char_at keys i]])"
      using True by (subst keys_loop.simps) simp
    also have "\<dots> = (acc @ [JString [char_at keys i]]) @
        map (\<lambda>c. JString [c]) (take (nat (sint n) - Suc i) (drop (Suc i) (c_str keys)))"
      using "1.IH"[OF True] il by simp
    finally show ?thesis using step char_at_c_str_nth[OF il] by simp
  next
    case False
    then have "\<not> i < length (c_str keys) \<or> \<not> int i < sint n"
      using char_at_c_str[OF "1.prems"] by simp
    then have "take (nat (sint n) - i) (drop i (c_str keys)) = []"
      by auto
    with False show ?thesis by (subst keys_loop.simps) auto
  qed
qed

lemma keys_loop_length:
  "length (keys_loop keys n 0 []) = min (length (c_str keys)) (nat (sint n))"
  by (simp add: keys_loop_eq)

lemma candidates_loop_0:
  "candidates_loop m 0 [] =
     (if nat (sint (num_candidates m)) \<le> length (candidates m)
      then Inr (map cand_json (take (nat (sint (num_candidates m))) (candidates m)))
      else Inl OutOfBounds)"
  using candidates_loop_ok[of 0 m "[]"] candidates_loop_fault[of 0 m "[]"] by simp

lemma labels_loop_0:
  "labels_loop ls n 0 [] =
     (if nat (sint n) \<le> length ls then Inr (map str_or_empty (take (nat (sint n)) ls))
      else Inl OutOfBounds)"
  using labels_loop_ok[of 0 n ls "[]"] labels_loop_fault[of 0 ls n "[]"] by simp

lemma keys_loop_0:
  "keys_loop keys n 0 [] = map (\<lambda>c. JString [c]) (take (nat (sint n)) (c_str keys))"
  using keys_loop_eq[of 0 keys n "[]"] by simp

section \<open>Machine integers as offsets\<close>

lemma sint_nonneg_uint:
  assumes "0 \<le> sint (w::32 word)"
  shows "uint w = sint w"
proof -
  have "sint w < 2 ^ 31" using sint_lt[of w] by simp
  then have lt: "sint w < 2 ^ 32" by simp
  have "uint w = take_bit 32 (sint w)" using uint_sint[of w] by simp
  also have "\<dots> = sint w" using assms lt by (rule take_bit_int_eq_self)
  finally show ?thesis .
qed

lemma sint_nonneg_unat: "0 \<le> sint (w::32 word) \<Longrightarrow> unat w = nat (sint w)"
  using sint_nonneg_uint[of w] by (simp add: unat_eq_nat_uint del: nat_uint_eq)

lemma sint_le_word_le:
  assumes "0 \<le> sint (a::32 word)" "sint a \<le> sint b"
  shows "a \<le> b"
proof -
  have "0 \<le> sint b" using assms by simp
  then show ?thesis using assms by (simp add: word_le_nat_alt sint_nonneg_unat)
qed

lemma unat_sub_sint:
  assumes "0 \<le> sint (a::32 word)" "sint a \<le> sint b"
  shows "unat (b - a) = nat (sint b) - nat (sint a)"
proof -
  have "a \<le> b" using assms by (rule sint_le_word_le)
  then have "unat (b - a) = unat b - unat a" by (rule unat_sub)
  moreover have "0 \<le> sint b" using assms by simp
  ultimately show ?thesis using assms by (simp add: sint_nonneg_unat)
qed

section \<open>The fields read from the context\<close>

lemma context_fields_absent:
  assumes "\<not> composition_present ctx"
  shows "context_fields ctx [(''committed'', c)] =
     Inr [(''committed'', c), (''preeditHead'', JString []), (''preeditBody'', JString []),
          (''preeditTail'', JString []), (''cursorPos'', JInt 0), (''candidates'', JArray []),
          (''pageNo'', JInt 0), (''isLastPage'', JBool True), (''highlightedIndex'', JInt 0),
          (''selectLabels'', JArray [])]"
  using assms by (auto simp: context_fields_def composition_present_def)

lemma select_labels_json_Some:
  "select_labels ctx = Some ls \<Longrightarrow>
   select_labels_json ctx =
     (if nat (sint (num_candidates (menu ctx))) \<le> length ls
      then Inr (map str_or_empty (take (nat (sint (num_candidates (menu ctx)))) ls))
      else Inl OutOfBounds)"
  by (simp add: select_labels_json_def labels_loop_0)

lemma select_labels_json_keys:
  "select_labels ctx = None \<Longrightarrow> select_keys (menu ctx) = Some keys \<Longrightarrow>
   select_labels_json ctx =
     Inr (map (\<lambda>c. JString [c]) (take (nat (sint (num_candidates (menu ctx)))) (c_str keys)))"
  by (simp add: select_labels_json_def keys_loop_0)

lemma select_labels_json_none:
  "select_labels ctx = None \<Longrightarrow> select_keys (menu ctx) = None \<Longrightarrow>
   select_labels_json ctx = Inr []"
  by (simp add: select_labels_json_def)

lemma select_labels_json_Inr:
  "arrays_ok ctx \<Longrightarrow> \<exists>labels. select_labels_json ctx = Inr labels"
  by (cases "select_labels ctx"; cases "select_keys (menu ctx)")
     (simp_all add: arrays_ok_def select_labels_json_Some select_labels_json_keys
        select_labels_json_none)

lemma select_labels_json_Inl:
  "nat (sint (num_candidates (menu ctx))) \<le> length (candidates (menu ctx)) \<Longrightarrow>
   \<not> arrays_ok ctx \<Longrightarrow> select_labels_json ctx = Inl OutOfBounds"
  by (cases "select_labels ctx") (simp_all add: arrays_ok_def select_labels_json_Some)

lemma context_fields_present:
  assumes "composition_present ctx"
  shows "context_fields ctx [(''committed'', c)] = Inr obj \<longleftrightarrow>
     unat (sel_start (composition ctx)) \<le> length (preedit_string ctx) \<and>
     unat (sel_end (composition ctx)) \<le> length (preedit_string ctx) \<and>
     arrays_ok ctx \<and>
     (\<exists>labels. select_labels_json ctx = Inr labels \<and>
     obj = [(''committed'', c),
            (''preeditHead'',
               JString (take (unat (sel_start (composition ctx))) (preedit_string ctx))),
            (''preeditBody'',
               JString (take (unat (sel_end (composition ctx) - sel_start (composition ctx)))
                          (drop (unat (sel_start (composition ctx))) (preedit_string ctx)))),
            (''preeditTail'',
               JString (drop (unat (sel_end (composition ctx))) (preedit_string ctx))),
            (''cursorPos'', JInt (sint (cursor_pos (composition ctx)))),
            (''candidates'',
               JArray (map cand_json
                 (take (nat (sint (num_candidates (menu ctx)))) (candidates (menu ctx))))),
            (''pageNo'', JInt (sint (page_no (menu ctx)))),
            (''isLastPage'', JBool (is_last_page (menu ctx) \<noteq> 0)),
            (''highlightedIndex'', JInt (sint (highlighted_candidate_index (menu ctx)))),
            (''selectLabels'', JArray labels)])"
proof -
  obtain buf where buf: "preedit (composition ctx) = Some buf"
    using assms by (auto simp: composition_present_def)
  have p: "preedit_string ctx = c_str buf" by (simp add: preedit_string_def buf)
  have pos: "0 < sint (comp_length (composition ctx))"
    using assms by (simp add: composition_present_def)
  show ?thesis
  proof (cases "nat (sint (num_candidates (menu ctx))) \<le> length (candidates (menu ctx))")
    case True
    show ?thesis
    proof (cases "arrays_ok ctx")
      case ok: True
      then obtain labels where "select_labels_json ctx = Inr labels"
        using select_labels_json_Inr by blast
      then show ?thesis using True ok pos
        unfolding context_fields_def
        by (auto simp: buf p substr_def substr_from_def candidates_loop_0 Let_def)
    next
      case False
      then show ?thesis using True pos select_labels_json_Inl[OF True False]
        unfolding context_fields_def
        by (auto simp: buf p substr_def substr_from_def candidates_loop_0 Let_def)
    qed
  next
    case False
    then have "\<not> arrays_ok ctx" by (simp add: arrays_ok_def)
    then show ?thesis using False pos
      unfolding context_fields_def
      by (auto simp: buf p substr_def substr_from_def candidates_loop_0 Let_def)
  qed
qed

section \<open>The projection as a whole\<close>

lemma build_state_fst:
  assumes "api st = Some a"
  shows "fst (build_state st) =
     context_fields (acquired_context st)
       [(''committed'', committed_json (fst (acquired_commit st)) (snd (acquired_commit st)))]"
  using assms
  by (simp add: acquired_context_def acquired_commit_def build_state_def Let_def
      split: prod.splits)

lemma build_state_calls:
  assumes "api st = Some a"
  shows "calls (snd (build_state st)) =
     calls st @ [FreeCommit (commit st), GetCommit (session st),
                 FreeContext (context_var st), GetContext (session st)]"
  using assms
  by (simp add: build_state_def Let_def call_free_commit_def call_get_commit_def
      call_free_context_def call_get_context_def split: prod.splits)

lemma build_state_commit:
  assumes "api st = Some a"
  shows "commit (snd (build_state st)) = snd (acquired_commit st)"
  using assms
  by (simp add: build_state_def Let_def acquired_commit_def
      call_free_context_def call_get_context_def split: prod.splits)

lemma build_state_frame:
  "api (snd (build_state st)) = api st \<and> session (snd (build_state st)) = session st \<and>
   engine_started (snd (build_state st)) = engine_started st \<and>
   json_buf (snd (build_state st)) = json_buf st"
  by (simp add: build_state_def Let_def call_free_commit_def call_get_commit_def
      call_free_context_def call_get_context_def split: prod.splits option.splits)

lemma build_state_steps:
  assumes "api st = Some a"
    and "free_commit a (commit st) (engine st) = (c1, e1)"
    and "get_commit a (session st) c1 e1 = ((has_commit, c2), e2)"
    and "free_context a (context_var st) e2 = (x1, e3)"
    and "get_context a (session st) x1 e3 = (x2, e4)"
  shows "build_state st =
     (context_fields x2 [(''committed'', committed_json has_commit c2)],
      st\<lparr>commit := c2, context_var := x2, engine := e4,
         calls := calls st @ [FreeCommit (commit st), GetCommit (session st),
                              FreeContext (context_var st), GetContext (session st)]\<rparr>)"
  using assms
  by (simp add: build_state_def Let_def call_free_commit_def call_get_commit_def
      call_free_context_def call_get_context_def)

section \<open>Runs of the scripted engine\<close>

lemma scripted_acquired_context:
  "acquired_context (scripted_state h t ctx) = ctx"
  by (simp add: acquired_context_def build_state_def Let_def call_free_commit_def
      call_get_commit_def call_free_context_def call_get_context_def scripted_state_def
      scripted_api_def split: prod.splits)

lemma scripted_acquired_commit:
  "acquired_commit (scripted_state h t ctx) = (h, \<lparr>commit_data_size = 0, commit_text = t\<rparr>)"
  by (simp add: acquired_commit_def call_free_commit_def
      call_get_commit_def scripted_state_def zero_commit_def
      scripted_api_def split: prod.splits)

lemma scripted_api_acquired_context:
  "api st = Some (scripted_api h t ctx) \<Longrightarrow> acquired_context st = ctx"
  by (simp add: acquired_context_def build_state_def Let_def call_free_commit_def
      call_get_commit_def call_free_context_def call_get_context_def
      scripted_api_def split: prod.splits)

lemma scripted_api_Some:
  "api (scripted_state h t ctx) = Some (scripted_api h t ctx)"
  by (simp add: scripted_state_def)

lemma recording_api_Some:
  "api (recording_state h t ctx) = Some (recording_api h t ctx)"
  by (simp add: recording_state_def)

lemma example_context_facts:
  "composition_present example_context"
  "preedit_string example_context = ''nihao''"
  "selection_ok example_context"
  "arrays_ok example_context"
  "context_ok example_context"
  by (simp_all add: composition_present_def preedit_string_def selection_ok_def arrays_ok_def
      context_ok_def example_context_def example_menu_def c_str_def NUL_def)

lemma keys_context_facts:
  "composition_present keys_context"
  "context_ok keys_context"
  "select_labels keys_context = None"
  "select_keys (menu keys_context) = Some ''1''"
  "nat (sint (num_candidates (menu keys_context))) = 2"
  by (simp_all add: composition_present_def preedit_string_def arrays_ok_def
      context_ok_def keys_context_def example_context_def example_menu_def c_str_def NUL_def)

lemma labels_context_facts:
  "composition_present labels_context"
  "context_ok labels_context"
  "select_labels labels_context = Some [None, Some ''b'', Some ''c'']"
  "nat (sint (num_candidates (menu labels_context))) = 2"
  by (simp_all add: composition_present_def preedit_string_def arrays_ok_def
      context_ok_def labels_context_def example_context_def example_menu_def c_str_def NUL_def)

section \<open>When the projection returns\<close>

lemma build_state_returns_iff:
  assumes "api st = Some a"
  shows "(\<exists>obj. fst (build_state st) = Inr obj) \<longleftrightarrow> context_ok (acquired_context st)"
proof (cases "composition_present (acquired_context st)")
  case True
  have "arrays_ok (acquired_context st) \<Longrightarrow>
      \<exists>labels. select_labels_json (acquired_context st) = Inr labels"
    by (rule select_labels_json_Inr)
  then show ?thesis
    using True by (auto simp: build_state_fst[OF assms] context_fields_present context_ok_def)
next
  case False
  then show ?thesis
    by (simp add: build_state_fst[OF assms] context_fields_absent context_ok_def)
qed

lemma selection_ok_in_range:
  assumes "selection_ok ctx"
  shows "unat (sel_start (composition ctx)) = nat (sint (sel_start (composition ctx)))"
    and "unat (sel_end (composition ctx)) = nat (sint (sel_end (composition ctx)))"
    and "unat (sel_end (composition ctx) - sel_start (composition ctx)) =
           nat (sint (sel_end (composition ctx))) - nat (sint (sel_start (composition ctx)))"
    and "nat (sint (sel_start (composition ctx))) \<le> nat (sint (sel_end (composition ctx)))"
    and "nat (sint (sel_end (composition ctx))) \<le> length (preedit_string ctx)"
proof -
  have s: "0 \<le> sint (sel_start (composition ctx))"
    and le: "sint (sel_start (composition ctx)) \<le> sint (sel_end (composition ctx))"
    and e: "sint (sel_end (composition ctx)) \<le> int (length (preedit_string ctx))"
    using assms by (simp_all add: selection_ok_def)
  from s le have e0: "0 \<le> sint (sel_end (composition ctx))" by simp
  show "unat (sel_start (composition ctx)) = nat (sint (sel_start (composition ctx)))"
    using s by (rule sint_nonneg_unat)
  show "unat (sel_end (composition ctx)) = nat (sint (sel_end (composition ctx)))"
    using e0 by (rule sint_nonneg_unat)
  show "unat (sel_end (composition ctx) - sel_start (composition ctx)) =
           nat (sint (sel_end (composition ctx))) - nat (sint (sel_start (composition ctx)))"
    using s le by (rule unat_sub_sint)
  show "nat (sint (sel_start (composition ctx))) \<le> nat (sint (sel_end (composition ctx)))"
    using le by simp
  show "nat (sint (sel_end (composition ctx))) \<le> length (preedit_string ctx)"
    using e by simp
qed

section \<open>Order of the engine calls in a projection\<close>

text \<open>
  Claim C9. Every projection calls, in this order, \<^verbatim>\<open>free_commit\<close> on the commit buffer
  held so far, \<^verbatim>\<open>get_commit\<close> on the released buffer, \<^verbatim>\<open>free_context\<close> on the context
  held so far and \<^verbatim>\<open>get_context\<close> on the released context, each on the engine state
  the call before it left. The engine state, the commit buffer and the context after the
  projection are the results of this chain, whatever \<^verbatim>\<open>get_commit\<close> answered, and the
  snapshot is read from the commit and the context so acquired.
\<close>

theorem projection_releases_before_acquiring:
  assumes "api st = Some a"
    and "free_commit a (commit st) (engine st) = (c1, e1)"
    and "get_commit a (session st) c1 e1 = ((has_commit, c2), e2)"
    and "free_context a (context_var st) e2 = (x1, e3)"
    and "get_context a (session st) x1 e3 = (x2, e4)"
  shows "engine (snd (build_state st)) = e4 \<and>
         commit (snd (build_state st)) = c2 \<and>
         context_var (snd (build_state st)) = x2 \<and>
         calls (snd (build_state st)) =
           calls st @ [FreeCommit (commit st), GetCommit (session st),
                       FreeContext (context_var st), GetContext (session st)] \<and>
         fst (build_state st) =
           context_fields x2 [(''committed'', committed_json has_commit c2)]"
  by (simp add: build_state_steps[OF assms])

theorem projection_releases_before_acquiring_witness:
  "engine (snd (build_state (recording_state False None example_context))) =
     [FreeCommit held_commit, GetCommit 1, FreeContext keys_context, GetContext 1] \<and>
   commit (snd (build_state (recording_state False None example_context))) =
     \<lparr>commit_data_size = 4, commit_text = None\<rparr> \<and>
   context_var (snd (build_state (recording_state False None example_context))) =
     example_context \<and>
   calls (snd (build_state (recording_state False None example_context))) =
     [FreeCommit held_commit, GetCommit 1, FreeContext keys_context, GetContext 1]"
proof -
  let ?st = "recording_state False None example_context"
  let ?a = "recording_api False None example_context"
  have f1: "free_commit ?a (commit ?st) (engine ?st) =
      (\<lparr>commit_data_size = 4, commit_text = None\<rparr>, [FreeCommit held_commit])"
    by (simp add: recording_api_def recording_state_def held_commit_def)
  have f2: "get_commit ?a (session ?st) \<lparr>commit_data_size = 4, commit_text = None\<rparr>
      [FreeCommit held_commit] =
      ((False, \<lparr>commit_data_size = 4, commit_text = None\<rparr>),
       [FreeCommit held_commit, GetCommit 1])"
    by (simp add: recording_api_def recording_state_def)
  have f3: "free_context ?a (context_var ?st) [FreeCommit held_commit, GetCommit 1] =
      (zero_context, [FreeCommit held_commit, GetCommit 1, FreeContext keys_context])"
    by (simp add: recording_api_def recording_state_def)
  have f4: "get_context ?a (session ?st) zero_context
      [FreeCommit held_commit, GetCommit 1, FreeContext keys_context] =
      (example_context,
       [FreeCommit held_commit, GetCommit 1, FreeContext keys_context, GetContext 1])"
    by (simp add: recording_api_def recording_state_def)
  from projection_releases_before_acquiring[OF recording_api_Some f1 f2 f3 f4]
  show ?thesis by (simp add: recording_state_def)
qed

section \<open>The committed member\<close>

text \<open>
  Claim C4. In every snapshot the projection produces, \<^verbatim>\<open>committed\<close> is null exactly when
  \<^verbatim>\<open>get_commit\<close> reported no commit or the commit's text pointer is null; when a commit
  is reported and the pointer is not null, \<^verbatim>\<open>committed\<close> is the string at the pointer.
\<close>

theorem committed_null_or_text:
  assumes "api st = Some a"
    and "fst (build_state st) = Inr obj"
    and "acquired_commit st = (has_commit, c)"
  shows "(obj_get obj ''committed'' = Some JNull \<longleftrightarrow> \<not> has_commit \<or> commit_text c = None) \<and>
         (\<forall>buf. has_commit \<and> commit_text c = Some buf \<longrightarrow>
                obj_get obj ''committed'' = Some (JString (c_str buf)))"
proof -
  have obj: "context_fields (acquired_context st)
      [(''committed'', committed_json has_commit c)] = Inr obj"
    using assms by (simp add: build_state_fst[OF assms(1)])
  have "obj_get obj ''committed'' = Some (committed_json has_commit c)"
  proof (cases "composition_present (acquired_context st)")
    case True
    then show ?thesis using obj by (auto simp: context_fields_present)
  next
    case False
    then show ?thesis using obj by (auto simp: context_fields_absent)
  qed
  then show ?thesis by (auto simp: committed_json_def)
qed

theorem committed_null_or_text_witness:
  "\<exists>obj. fst (build_state (scripted_state True (Some ''ni'') example_context)) = Inr obj \<and>
         obj_get obj ''committed'' = Some (JString ''ni'')"
proof -
  let ?st = "scripted_state True (Some ''ni'') example_context"
  have "context_ok (acquired_context ?st)"
    by (simp add: scripted_acquired_context example_context_facts)
  then obtain obj where obj: "fst (build_state ?st) = Inr obj"
    using build_state_returns_iff[OF scripted_api_Some] by blast
  from committed_null_or_text[OF scripted_api_Some obj scripted_acquired_commit]
  have "obj_get obj ''committed'' = Some (JString (c_str ''ni''))" by simp
  then show ?thesis using obj by (simp add: c_str_def NUL_def)
qed

section \<open>The empty defaults\<close>

text \<open>
  Claim C5. When the acquired context has composition length 0 or a null preedit
  pointer, the projection produces a snapshot whose three preedit parts are empty
  strings, \<^verbatim>\<open>cursorPos\<close> is 0, \<^verbatim>\<open>candidates\<close> is the empty array, \<^verbatim>\<open>pageNo\<close> is 0,
  \<^verbatim>\<open>isLastPage\<close> is true, \<^verbatim>\<open>highlightedIndex\<close> is 0 and \<^verbatim>\<open>selectLabels\<close> is the empty
  array.
\<close>

theorem empty_composition_defaults:
  assumes "api st = Some a"
    and "comp_length (composition (acquired_context st)) = 0 \<or>
         preedit (composition (acquired_context st)) = None"
  shows "\<exists>obj. fst (build_state st) = Inr obj \<and>
           obj_get obj ''preeditHead'' = Some (JString []) \<and>
           obj_get obj ''preeditBody'' = Some (JString []) \<and>
           obj_get obj ''preeditTail'' = Some (JString []) \<and>
           obj_get obj ''cursorPos'' = Some (JInt 0) \<and>
           obj_get obj ''candidates'' = Some (JArray []) \<and>
           obj_get obj ''pageNo'' = Some (JInt 0) \<and>
           obj_get obj ''isLastPage'' = Some (JBool True) \<and>
           obj_get obj ''highlightedIndex'' = Some (JInt 0) \<and>
           obj_get obj ''selectLabels'' = Some (JArray [])"
proof -
  have "\<not> composition_present (acquired_context st)"
    using assms(2) by (auto simp: composition_present_def)
  then show ?thesis
    by (simp add: build_state_fst[OF assms(1)] context_fields_absent)
qed

theorem empty_composition_defaults_witness:
  "\<exists>obj. fst (build_state (scripted_state False None
            (example_context\<lparr>composition := zero_composition\<rparr>))) = Inr obj \<and>
         obj_get obj ''preeditHead'' = Some (JString []) \<and>
         obj_get obj ''candidates'' = Some (JArray []) \<and>
         obj_get obj ''isLastPage'' = Some (JBool True) \<and>
         obj_get obj ''selectLabels'' = Some (JArray [])"
  using empty_composition_defaults[OF scripted_api_Some,
      of False None "example_context\<lparr>composition := zero_composition\<rparr>"]
  by (auto simp: scripted_acquired_context zero_composition_def)

section \<open>The preedit split at the selection\<close>

text \<open>
  Claim C1. When the composition is present and the selection satisfies
  \<open>0 \<le> sel_start \<le> sel_end \<le> length preedit\<close>, every snapshot the projection produces
  has \<^verbatim>\<open>preeditHead\<close>, \<^verbatim>\<open>preeditBody\<close> and \<^verbatim>\<open>preeditTail\<close> equal to the preedit's bytes
  before \<open>sel_start\<close>, from \<open>sel_start\<close> to \<open>sel_end\<close>, and from \<open>sel_end\<close> on: their
  concatenation is the preedit, the head has length \<open>sel_start\<close>, and head and body
  together have length \<open>sel_end\<close>.
\<close>

theorem preedit_split_at_selection:
  assumes "api st = Some a"
    and "fst (build_state st) = Inr obj"
    and "composition_present (acquired_context st)"
    and "selection_ok (acquired_context st)"
    and "p = preedit_string (acquired_context st)"
    and "s = nat (sint (sel_start (composition (acquired_context st))))"
    and "e = nat (sint (sel_end (composition (acquired_context st))))"
  shows "\<exists>head body tail.
           obj_get obj ''preeditHead'' = Some (JString head) \<and>
           obj_get obj ''preeditBody'' = Some (JString body) \<and>
           obj_get obj ''preeditTail'' = Some (JString tail) \<and>
           head @ body @ tail = p \<and>
           length head = s \<and> length head + length body = e \<and>
           head = take s p \<and> body = take (e - s) (drop s p) \<and> tail = drop e p"
proof -
  let ?ctx = "acquired_context st"
  note r = selection_ok_in_range[OF assms(4)]
  have se: "s \<le> e" and ep: "e \<le> length p"
    using r(4,5) assms(5-7) by simp_all
  have cf: "context_fields ?ctx
      [(''committed'', committed_json (fst (acquired_commit st)) (snd (acquired_commit st)))]
      = Inr obj"
    using assms(2) by (simp add: build_state_fst[OF assms(1)])
  have h: "obj_get obj ''preeditHead'' = Some (JString (take s p))"
    and b: "obj_get obj ''preeditBody'' = Some (JString (take (e - s) (drop s p)))"
    and t: "obj_get obj ''preeditTail'' = Some (JString (drop e p))"
    using cf assms(5-7) r(1-3) by (auto simp: context_fields_present[OF assms(3)])
  have "take s p @ take (e - s) (drop s p) = take e p"
    using se by (metis add_diff_inverse_nat not_less take_add)
  then have cat: "take s p @ take (e - s) (drop s p) @ drop e p = p"
    by (metis append_assoc append_take_drop_id)
  have l1: "length (take s p) = s" using se ep by simp
  have l2: "length (take s p) + length (take (e - s) (drop s p)) = e" using se ep by simp
  show ?thesis using h b t cat l1 l2 by blast
qed

theorem preedit_split_at_selection_witness:
  "\<exists>obj. fst (build_state (scripted_state False None example_context)) = Inr obj \<and>
         obj_get obj ''preeditHead'' = Some (JString ''n'') \<and>
         obj_get obj ''preeditBody'' = Some (JString ''ih'') \<and>
         obj_get obj ''preeditTail'' = Some (JString ''ao'')"
proof -
  let ?st = "scripted_state False None example_context"
  have ctx: "acquired_context ?st = example_context" by (rule scripted_acquired_context)
  have "context_ok (acquired_context ?st)" by (simp add: ctx example_context_facts)
  then obtain obj where obj: "fst (build_state ?st) = Inr obj"
    using build_state_returns_iff[OF scripted_api_Some] by blast
  have pres: "composition_present (acquired_context ?st)"
    and sel: "selection_ok (acquired_context ?st)"
    by (simp_all add: ctx example_context_facts)
  have s: "(1::nat) = nat (sint (sel_start (composition (acquired_context ?st))))"
    and e: "(3::nat) = nat (sint (sel_end (composition (acquired_context ?st))))"
    and p: "''nihao'' = preedit_string (acquired_context ?st)"
    by (simp_all add: ctx example_context_facts) (simp_all add: example_context_def)
  from preedit_split_at_selection[OF scripted_api_Some obj pres sel p s e]
  show ?thesis using obj by auto
qed

section \<open>Labels from the select keys\<close>

text \<open>
  Claim C6. When the composition is present, the context has no label array and the
  menu has a select-key string, every snapshot the projection produces has one
  single-character label for each of the first \<^verbatim>\<open>num_candidates\<close> characters of the key
  string, in order, and stops where the key string ends: the number of labels is the
  minimum of the key string's length and the number of candidates, so a key string
  strictly shorter than the candidate count gives fewer labels than candidates.
\<close>

theorem select_keys_labels:
  assumes "api st = Some a"
    and "fst (build_state st) = Inr obj"
    and "composition_present (acquired_context st)"
    and "select_labels (acquired_context st) = None"
    and "select_keys (menu (acquired_context st)) = Some keys"
    and "n = nat (sint (num_candidates (menu (acquired_context st))))"
  shows "\<exists>cands labels.
           obj_get obj ''candidates'' = Some (JArray cands) \<and>
           obj_get obj ''selectLabels'' = Some (JArray labels) \<and>
           labels = map (\<lambda>c. JString [c]) (take n (c_str keys)) \<and>
           length cands = n \<and>
           length labels = min (length (c_str keys)) n \<and>
           (length (c_str keys) < n \<longrightarrow> length labels < length cands)"
proof -
  let ?ctx = "acquired_context st"
  have cf: "context_fields ?ctx
      [(''committed'', committed_json (fst (acquired_commit st)) (snd (acquired_commit st)))]
      = Inr obj"
    using assms(2) by (simp add: build_state_fst[OF assms(1)])
  have lab: "select_labels_json ?ctx = Inr (map (\<lambda>c. JString [c]) (take n (c_str keys)))"
    using assms(4-6) by (simp add: select_labels_json_keys)
  from cf have ok: "arrays_ok ?ctx" by (simp add: context_fields_present[OF assms(3)])
  then have len: "n \<le> length (candidates (menu ?ctx))" using assms(6) by (simp add: arrays_ok_def)
  have c: "obj_get obj ''candidates'' =
      Some (JArray (map cand_json (take n (candidates (menu ?ctx)))))"
    and l: "obj_get obj ''selectLabels'' =
      Some (JArray (map (\<lambda>c. JString [c]) (take n (c_str keys))))"
    using cf lab assms(6) by (auto simp: context_fields_present[OF assms(3)])
  have "length (map cand_json (take n (candidates (menu ?ctx)))) = n" using len by simp
  moreover have "length (map (\<lambda>c. JString [c]) (take n (c_str keys))) = min (length (c_str keys)) n"
    by simp
  ultimately show ?thesis using c l by (metis min_less_iff_conj order_less_irrefl min.commute min_def)
qed

theorem select_keys_labels_witness:
  "\<exists>obj. fst (build_state (scripted_state False None keys_context)) = Inr obj \<and>
         obj_get obj ''selectLabels'' = Some (JArray [JString ''1'']) \<and>
         array_length (obj_get obj ''candidates'') = Some 2"
proof -
  let ?st = "scripted_state False None keys_context"
  have ctx: "acquired_context ?st = keys_context" by (rule scripted_acquired_context)
  have "context_ok (acquired_context ?st)" by (simp add: ctx keys_context_facts)
  then obtain obj where obj: "fst (build_state ?st) = Inr obj"
    using build_state_returns_iff[OF scripted_api_Some] by blast
  have pres: "composition_present (acquired_context ?st)"
    and nol: "select_labels (acquired_context ?st) = None"
    and ks: "select_keys (menu (acquired_context ?st)) = Some ''1''"
    and n: "2 = nat (sint (num_candidates (menu (acquired_context ?st))))"
    by (simp_all add: ctx keys_context_facts)
  from select_keys_labels[OF scripted_api_Some obj pres nol ks n]
  show ?thesis using obj by (auto simp: c_str_def NUL_def array_length_def)
qed

section \<open>Labels from the label array\<close>

text \<open>
  Claim C7. When the context has a label array, every snapshot the projection produces
  has as many labels as candidates. With the composition present, both are
  \<^verbatim>\<open>num_candidates\<close> long and the label at each candidate index from 0 to
  \<^verbatim>\<open>num_candidates - 1\<close> is the array's entry at that index, the empty string where the
  entry is a null pointer; without a composition both are empty.
\<close>

theorem explicit_labels_one_per_candidate:
  assumes "api st = Some a"
    and "fst (build_state st) = Inr obj"
    and "select_labels (acquired_context st) = Some ls"
    and "n = nat (sint (num_candidates (menu (acquired_context st))))"
  shows "\<exists>cands labels.
           obj_get obj ''candidates'' = Some (JArray cands) \<and>
           obj_get obj ''selectLabels'' = Some (JArray labels) \<and>
           length labels = length cands \<and>
           (composition_present (acquired_context st) \<longrightarrow>
              length cands = n \<and> n \<le> length ls \<and>
              labels = map str_or_empty (take n ls) \<and>
              (\<forall>i<n. labels ! i =
                 (case ls ! i of None \<Rightarrow> JString [] | Some buf \<Rightarrow> JString (c_str buf))))"
proof -
  let ?ctx = "acquired_context st"
  have cf: "context_fields ?ctx
      [(''committed'', committed_json (fst (acquired_commit st)) (snd (acquired_commit st)))]
      = Inr obj"
    using assms(2) by (simp add: build_state_fst[OF assms(1)])
  show ?thesis
  proof (cases "composition_present ?ctx")
    case True
    from cf have ok: "arrays_ok ?ctx" by (simp add: context_fields_present[OF True])
    then have len: "n \<le> length (candidates (menu ?ctx))" and lls: "n \<le> length ls"
      using assms(3,4) by (simp_all add: arrays_ok_def)
    have lab: "select_labels_json ?ctx = Inr (map str_or_empty (take n ls))"
      using assms(3,4) lls by (simp add: select_labels_json_Some)
    have c: "obj_get obj ''candidates'' =
        Some (JArray (map cand_json (take n (candidates (menu ?ctx)))))"
      and l: "obj_get obj ''selectLabels'' = Some (JArray (map str_or_empty (take n ls)))"
      using cf lab assms(4) by (auto simp: context_fields_present[OF True])
    have nth: "\<forall>i<n. map str_or_empty (take n ls) ! i =
        (case ls ! i of None \<Rightarrow> JString [] | Some buf \<Rightarrow> JString (c_str buf))"
      using lls by (simp add: str_or_empty_def)
    have "length (map str_or_empty (take n ls)) =
        length (map cand_json (take n (candidates (menu ?ctx))))"
      and "length (map cand_json (take n (candidates (menu ?ctx)))) = n"
      using len lls by simp_all
    then show ?thesis using c l nth lls by blast
  next
    case False
    then have "obj_get obj ''candidates'' = Some (JArray [])"
      and "obj_get obj ''selectLabels'' = Some (JArray [])"
      using cf by (auto simp: context_fields_absent)
    then show ?thesis using False by simp
  qed
qed

theorem explicit_labels_one_per_candidate_witness:
  "\<exists>obj. fst (build_state (scripted_state False None labels_context)) = Inr obj \<and>
         obj_get obj ''selectLabels'' = Some (JArray [JString [], JString ''b'']) \<and>
         array_length (obj_get obj ''candidates'') = Some 2"
proof -
  let ?st = "scripted_state False None labels_context"
  have ctx: "acquired_context ?st = labels_context" by (rule scripted_acquired_context)
  have "context_ok (acquired_context ?st)" by (simp add: ctx labels_context_facts)
  then obtain obj where obj: "fst (build_state ?st) = Inr obj"
    using build_state_returns_iff[OF scripted_api_Some] by blast
  have pres: "composition_present (acquired_context ?st)"
    and ls: "select_labels (acquired_context ?st) = Some [None, Some ''b'', Some ''c'']"
    and n: "2 = nat (sint (num_candidates (menu (acquired_context ?st))))"
    by (simp_all add: ctx labels_context_facts)
  from explicit_labels_one_per_candidate[OF scripted_api_Some obj ls n] pres
  show ?thesis using obj
    by (auto simp: c_str_def NUL_def array_length_def str_or_empty_def numeral_2_eq_2)
qed

section \<open>Serialized replies\<close>

lemma join_Cons_nonempty: "x \<noteq> [] \<Longrightarrow> join (x # xs) = hd x # tl (join (x # xs))"
  by (cases xs; cases x) simp_all

lemma serialize_object_empty_iff: "serialize (JObject obj) = ''{}'' \<longleftrightarrow> obj = []"
proof
  assume eq: "serialize (JObject obj) = ''{}''"
  show "obj = []"
  proof (cases obj)
    case Nil
    then show ?thesis .
  next
    case (Cons kv rest)
    let ?x = "quote (fst kv) @ CHR '':'' # serialize (snd kv)"
    let ?xs = "map (\<lambda>kv. quote (fst kv) @ CHR '':'' # serialize (snd kv)) rest"
    have ne: "?x \<noteq> []" by simp
    have hd: "hd ?x = CHR 0x22" by (simp add: quote_def)
    have "serialize (JObject obj) = CHR ''{'' # hd ?x # tl (join (?x # ?xs)) @ [CHR ''}'']"
      using join_Cons_nonempty[OF ne, of ?xs] by (simp add: Cons)
    with eq hd show ?thesis by simp
  qed
next
  assume "obj = []"
  then show "serialize (JObject obj) = ''{}''" by simp
qed

lemma build_state_is_snapshot:
  assumes "api st = Some a" and "fst (build_state st) = Inr obj"
  shows "is_snapshot obj"
proof -
  have cf: "context_fields (acquired_context st)
      [(''committed'', committed_json (fst (acquired_commit st)) (snd (acquired_commit st)))]
      = Inr obj"
    using assms(2) by (simp add: build_state_fst[OF assms(1)])
  have c: "is_string_or_null (Some (committed_json h c))" for h c
    by (simp add: committed_json_def is_string_or_null_def)
  show ?thesis
  proof (cases "composition_present (acquired_context st)")
    case True
    then show ?thesis using cf c
      by (auto simp: context_fields_present is_snapshot_def obj_keys_def snapshot_keys_def)
  next
    case False
    then show ?thesis using cf c
      by (auto simp: context_fields_absent is_snapshot_def obj_keys_def snapshot_keys_def)
  qed
qed

lemma return_state_fst:
  "fst (return_state st) =
     (case fst (build_state st) of Inl f \<Rightarrow> Inl f | Inr obj \<Rightarrow> Inr (serialize (JObject obj)))"
  by (simp add: return_state_def to_json_cstr_def Let_def split: prod.splits sum.splits)

lemma return_state_snd:
  "calls (snd (return_state st)) = calls (snd (build_state st)) \<and>
   context_var (snd (return_state st)) = context_var (snd (build_state st)) \<and>
   engine (snd (return_state st)) = engine (snd (build_state st))"
  by (simp add: return_state_def to_json_cstr_def Let_def split: prod.splits sum.splits)

lemma return_state_snapshot:
  assumes "api st = Some a" and "fst (return_state st) = Inr t"
  shows "\<exists>obj. t = serialize (JObject obj) \<and> is_snapshot obj"
  using assms build_state_is_snapshot[OF assms(1)]
  by (auto simp: return_state_fst split: sum.splits)

lemma return_state_returns_iff:
  assumes "api st = Some a"
  shows "(\<exists>t. fst (return_state st) = Inr t) \<longleftrightarrow> context_ok (acquired_context st)"
  using build_state_returns_iff[OF assms]
  by (auto simp: return_state_fst split: sum.splits)

lemma return_state_steps:
  assumes "api st = Some a"
    and "free_commit a (commit st) (engine st) = (c1, e1)"
    and "get_commit a (session st) c1 e1 = ((has_commit, c2), e2)"
    and "free_context a (context_var st) e2 = (x1, e3)"
    and "get_context a (session st) x1 e3 = (x2, e4)"
  shows "fst (return_state st) =
           (case context_fields x2 [(''committed'', committed_json has_commit c2)] of
              Inl f \<Rightarrow> Inl f
            | Inr obj \<Rightarrow> Inr (serialize (JObject obj)))"
    and "engine (snd (return_state st)) = e4"
    and "commit (snd (return_state st)) = c2"
    and "context_var (snd (return_state st)) = x2"
    and "calls (snd (return_state st)) =
           calls st @ [FreeCommit (commit st), GetCommit (session st),
                       FreeContext (context_var st), GetContext (session st)]"
    and "acquired_context st = x2"
  by (simp_all add: return_state_def to_json_cstr_def Let_def acquired_context_def
      build_state_steps[OF assms] split: sum.splits)

lemma call_engine_simps:
  "api (call_engine ev f st) = api st"
  "session (call_engine ev f st) = session st"
  "commit (call_engine ev f st) = commit st"
  "context_var (call_engine ev f st) = context_var st"
  "json_buf (call_engine ev f st) = json_buf st"
  "engine_started (call_engine ev f st) = engine_started st"
  "engine (call_engine ev f st) = f (engine st)"
  "calls (call_engine ev f st) = calls st @ [ev]"
  by (simp_all add: call_engine_def)

lemma return_state_context:
  "context_var (snd (return_state st)) = acquired_context st"
  by (simp add: return_state_snd acquired_context_def)

lemma live_op_reply:
  assumes "api st = Some a"
  shows "(\<forall>t. fst (return_state (call_engine ev f st)) = Inr t \<longrightarrow>
            (\<exists>obj. t = serialize (JObject obj) \<and> is_snapshot obj)) \<and>
         ((\<exists>t. fst (return_state (call_engine ev f st)) = Inr t) \<longleftrightarrow>
            context_ok (context_var (snd (return_state (call_engine ev f st)))))"
proof -
  have api1: "api (call_engine ev f st) = Some a" using assms by (simp add: call_engine_simps)
  show ?thesis
    using return_state_snapshot[OF api1] return_state_returns_iff[OF api1]
    unfolding return_state_context by blast
qed

lemma scripted_live: "session (scripted_state h t ctx) \<noteq> 0"
  by (simp add: scripted_state_def)

lemma scripted_flip_page_returns:
  "\<exists>t. fst (rime_wasm_flip_page b (scripted_state h txt example_context)) = Inr t"
proof -
  let ?st = "scripted_state h txt example_context"
  let ?st1 = "call_engine (ChangePage (session ?st) (b \<noteq> 0))
      (change_page (scripted_api h txt example_context) (session ?st) (b \<noteq> 0)) ?st"
  have api1: "api ?st1 = Some (scripted_api h txt example_context)"
    by (simp add: call_engine_simps scripted_api_Some)
  have "acquired_context ?st1 = example_context"
    using api1 by (rule scripted_api_acquired_context)
  then have "\<exists>t. fst (return_state ?st1) = Inr t"
    using return_state_returns_iff[OF api1] by (simp add: example_context_facts)
  then show ?thesis
    by (simp add: rime_wasm_flip_page_def scripted_api_Some scripted_live)
qed

lemma started_state_eq:
  "started_state =
     \<lparr>api = Some (scripted_api False None example_context), session = 1,
      commit = \<lparr>commit_data_size = 4, commit_text = None\<rparr>,
      context_var = zero_context\<lparr>context_data_size := 56\<rparr>, json_buf = [],
      engine_started = True,
      engine = \<lparr>live_sessions = [1], next_session = 2, finalize_calls = 0\<rparr>,
      calls = [Setup init_traits, Initialize init_traits, StartMaintenance True,
               CreateSession 1]\<rparr>"
  by (simp add: started_state_def rime_wasm_init_def scripted_lib_def initial_state_def
      fresh_engine_def Let_def call_engine_def zero_commit_def)
     (simp add: scripted_api_def init_traits_def zero_traits_def)

lemma destroyed_state_facts:
  "api (rime_wasm_destroy started_state) \<noteq> None"
  "session (rime_wasm_destroy started_state) = 0"
  by (simp_all add: started_state_eq rime_wasm_destroy_def Let_def call_engine_def)

section \<open>Picking a candidate\<close>

text \<open>
  Claim C10, amended. On a live session \<^verbatim>\<open>rime_wasm_pick_candidate\<close> applies the
  engine's \<^verbatim>\<open>select_candidate_on_current_page\<close> to the session and to the index as it is,
  negative or beyond the page, and then projects from the engine state that call left.
  Whatever it returns is the text of a snapshot, never another value, and it returns
  exactly when the context the engine then provides is one the projection can read:
  with a composition present, both selection offsets within the preedit and the arrays
  holding an element for every candidate index.
\<close>

theorem pick_candidate_forwards_index:
  assumes "api st = Some a" and "session st \<noteq> 0"
    and "free_commit a (commit st)
           (select_candidate_on_current_page a (session st) index (engine st)) = (c1, e1)"
    and "get_commit a (session st) c1 e1 = ((has_commit, c2), e2)"
    and "free_context a (context_var st) e2 = (x1, e3)"
    and "get_context a (session st) x1 e3 = (x2, e4)"
  shows "engine (snd (rime_wasm_pick_candidate index st)) = e4 \<and>
         commit (snd (rime_wasm_pick_candidate index st)) = c2 \<and>
         context_var (snd (rime_wasm_pick_candidate index st)) = x2 \<and>
         calls (snd (rime_wasm_pick_candidate index st)) =
           calls st @ [SelectCandidateOnCurrentPage (session st) index,
                       FreeCommit (commit st), GetCommit (session st),
                       FreeContext (context_var st), GetContext (session st)] \<and>
         fst (rime_wasm_pick_candidate index st) =
           (case context_fields x2 [(''committed'', committed_json has_commit c2)] of
              Inl f \<Rightarrow> Inl f
            | Inr obj \<Rightarrow> Inr (serialize (JObject obj))) \<and>
         (\<forall>t. fst (rime_wasm_pick_candidate index st) = Inr t \<longrightarrow>
              (\<exists>obj. t = serialize (JObject obj) \<and> is_snapshot obj)) \<and>
         ((\<exists>t. fst (rime_wasm_pick_candidate index st) = Inr t) \<longleftrightarrow> context_ok x2)"
proof -
  let ?st1 = "call_engine (SelectCandidateOnCurrentPage (session st) index)
                (select_candidate_on_current_page a (session st) index) st"
  have run: "rime_wasm_pick_candidate index st = return_state ?st1"
    using assms(1,2) by (simp add: rime_wasm_pick_candidate_def)
  have api1: "api ?st1 = Some a" using assms(1) by (simp add: call_engine_simps)
  have s1: "free_commit a (commit ?st1) (engine ?st1) = (c1, e1)"
    using assms(3) by (simp add: call_engine_simps)
  have s2: "get_commit a (session ?st1) c1 e1 = ((has_commit, c2), e2)"
    using assms(4) by (simp add: call_engine_simps)
  have s3: "free_context a (context_var ?st1) e2 = (x1, e3)"
    using assms(5) by (simp add: call_engine_simps)
  have s4: "get_context a (session ?st1) x1 e3 = (x2, e4)"
    using assms(6) by (simp add: call_engine_simps)
  note r = return_state_steps[OF api1 s1 s2 s3 s4]
  have eff: "engine (snd (rime_wasm_pick_candidate index st)) = e4 \<and>
         commit (snd (rime_wasm_pick_candidate index st)) = c2 \<and>
         context_var (snd (rime_wasm_pick_candidate index st)) = x2"
    using r(2,3,4) by (simp add: run)
  have c: "calls (snd (rime_wasm_pick_candidate index st)) =
           calls st @ [SelectCandidateOnCurrentPage (session st) index,
                       FreeCommit (commit st), GetCommit (session st),
                       FreeContext (context_var st), GetContext (session st)]"
    using r(5) by (simp add: run call_engine_simps)
  have v: "fst (rime_wasm_pick_candidate index st) =
           (case context_fields x2 [(''committed'', committed_json has_commit c2)] of
              Inl f \<Rightarrow> Inl f
            | Inr obj \<Rightarrow> Inr (serialize (JObject obj)))"
    using r(1) by (simp add: run)
  have s: "\<forall>t. fst (rime_wasm_pick_candidate index st) = Inr t \<longrightarrow>
              (\<exists>obj. t = serialize (JObject obj) \<and> is_snapshot obj)"
    using return_state_snapshot[OF api1] by (simp add: run)
  have k: "(\<exists>t. fst (rime_wasm_pick_candidate index st) = Inr t) \<longleftrightarrow> context_ok x2"
    using return_state_returns_iff[OF api1] r(6) by (simp add: run)
  from eff c v s k show ?thesis by blast
qed

theorem pick_candidate_forwards_index_witness:
  "engine (snd (rime_wasm_pick_candidate (- 1) (recording_state True (Some ''ni'') example_context))) =
     [SelectCandidateOnCurrentPage 1 (- 1), FreeCommit held_commit, GetCommit 1,
      FreeContext keys_context, GetContext 1] \<and>
   context_var (snd (rime_wasm_pick_candidate (- 1)
      (recording_state True (Some ''ni'') example_context))) = example_context \<and>
   (\<exists>obj. fst (rime_wasm_pick_candidate (- 1)
              (recording_state True (Some ''ni'') example_context)) = Inr (serialize (JObject obj)) \<and>
          is_snapshot obj)"
proof -
  let ?st = "recording_state True (Some ''ni'') example_context"
  let ?a = "recording_api True (Some ''ni'') example_context"
  let ?c = "\<lparr>commit_data_size = 4, commit_text = None\<rparr>"
  let ?c2 = "\<lparr>commit_data_size = 4, commit_text = Some ''ni''\<rparr>"
  have live: "session ?st \<noteq> 0" by (simp add: recording_state_def)
  have f1: "free_commit ?a (commit ?st)
      (select_candidate_on_current_page ?a (session ?st) (- 1) (engine ?st)) =
      (?c, [SelectCandidateOnCurrentPage 1 (- 1), FreeCommit held_commit])"
    by (simp add: recording_api_def recording_state_def held_commit_def)
  have f2: "get_commit ?a (session ?st) ?c
      [SelectCandidateOnCurrentPage 1 (- 1), FreeCommit held_commit] =
      ((True, ?c2), [SelectCandidateOnCurrentPage 1 (- 1), FreeCommit held_commit, GetCommit 1])"
    by (simp add: recording_api_def recording_state_def)
  have f3: "free_context ?a (context_var ?st)
      [SelectCandidateOnCurrentPage 1 (- 1), FreeCommit held_commit, GetCommit 1] =
      (zero_context, [SelectCandidateOnCurrentPage 1 (- 1), FreeCommit held_commit,
                      GetCommit 1, FreeContext keys_context])"
    by (simp add: recording_api_def recording_state_def)
  have f4: "get_context ?a (session ?st) zero_context
      [SelectCandidateOnCurrentPage 1 (- 1), FreeCommit held_commit,
       GetCommit 1, FreeContext keys_context] =
      (example_context,
       [SelectCandidateOnCurrentPage 1 (- 1), FreeCommit held_commit, GetCommit 1,
        FreeContext keys_context, GetContext 1])"
    by (simp add: recording_api_def recording_state_def)
  note t = pick_candidate_forwards_index[OF recording_api_Some live f1 f2 f3 f4]
  from t have e: "engine (snd (rime_wasm_pick_candidate (- 1) ?st)) =
      [SelectCandidateOnCurrentPage 1 (- 1), FreeCommit held_commit, GetCommit 1,
       FreeContext keys_context, GetContext 1]"
    and x: "context_var (snd (rime_wasm_pick_candidate (- 1) ?st)) = example_context"
    and sn: "\<forall>u. fst (rime_wasm_pick_candidate (- 1) ?st) = Inr u \<longrightarrow>
              (\<exists>obj. u = serialize (JObject obj) \<and> is_snapshot obj)"
    and iff: "(\<exists>u. fst (rime_wasm_pick_candidate (- 1) ?st) = Inr u) \<longleftrightarrow>
              context_ok example_context"
    by blast+
  from iff obtain u where "fst (rime_wasm_pick_candidate (- 1) ?st) = Inr u"
    using example_context_facts(5) by blast
  with sn have "\<exists>obj. fst (rime_wasm_pick_candidate (- 1) ?st) = Inr (serialize (JObject obj)) \<and>
      is_snapshot obj"
    by blast
  with e x show ?thesis by blast
qed

text \<open>
  Claim C10 as stated fails on a live session whose engine provides a selection that
  ends beyond the preedit: for no index does the operation return a snapshot.
\<close>

theorem pick_candidate_faults_counterexample:
  "fst (rime_wasm_pick_candidate 0 (scripted_state False None bad_context)) = Inl OutOfRange \<and>
   fst (rime_wasm_pick_candidate (- 1) (scripted_state False None bad_context)) = Inl OutOfRange"
proof -
  have cf: "context_fields bad_context r = Inl OutOfRange" for r
    by (simp add: context_fields_def bad_context_def example_context_def substr_def
        substr_from_def c_str_def NUL_def Let_def)
  have "fst (rime_wasm_pick_candidate i (scripted_state False None bad_context)) = Inl OutOfRange"
    for i
  proof -
    let ?st1 = "call_engine (SelectCandidateOnCurrentPage 1 i)
        (select_candidate_on_current_page (scripted_api False None bad_context) 1 i)
        (scripted_state False None bad_context)"
    have api1: "api ?st1 = Some (scripted_api False None bad_context)"
      by (simp add: call_engine_simps scripted_api_Some)
    have ac: "acquired_context ?st1 = bad_context"
      using api1 by (rule scripted_api_acquired_context)
    have "fst (build_state ?st1) = Inl OutOfRange"
      unfolding build_state_fst[OF api1] ac by (rule cf)
    then have "fst (return_state ?st1) = Inl OutOfRange" by (simp add: return_state_fst)
    moreover have "rime_wasm_pick_candidate i (scripted_state False None bad_context) =
        return_state ?st1"
      by (simp add: rime_wasm_pick_candidate_def scripted_state_def)
    ultimately show ?thesis by simp
  qed
  then show ?thesis by blast
qed

section \<open>The keys of a returned snapshot\<close>

text \<open>
  Claim C2, amended. When the capability and a session are there (and, for
  \<^verbatim>\<open>rime_wasm_process_input\<close>, the key sequence is not null), every text returned by
  \<^verbatim>\<open>rime_wasm_process_input\<close>, \<^verbatim>\<open>rime_wasm_pick_candidate\<close> or \<^verbatim>\<open>rime_wasm_flip_page\<close>
  is the text of an object with exactly the ten snapshot keys, \<^verbatim>\<open>committed\<close> being a
  string or null, and the operation returns exactly when the context the engine
  provides is one the projection can read. Otherwise the operation returns the text
  \<^verbatim>\<open>{}\<close> of the empty object, which has none of the keys, and changes nothing.
\<close>

theorem snapshot_keys_when_live:
  "(if live st \<and> keys \<noteq> None
    then (\<forall>t. fst (rime_wasm_process_input keys st) = Inr t \<longrightarrow>
            (\<exists>obj. t = serialize (JObject obj) \<and> is_snapshot obj)) \<and>
         ((\<exists>t. fst (rime_wasm_process_input keys st) = Inr t) \<longleftrightarrow>
            context_ok (context_var (snd (rime_wasm_process_input keys st))))
    else rime_wasm_process_input keys st = (Inr ''{}'', st)) \<and>
   (if live st
    then (\<forall>t. fst (rime_wasm_pick_candidate index st) = Inr t \<longrightarrow>
            (\<exists>obj. t = serialize (JObject obj) \<and> is_snapshot obj)) \<and>
         ((\<exists>t. fst (rime_wasm_pick_candidate index st) = Inr t) \<longleftrightarrow>
            context_ok (context_var (snd (rime_wasm_pick_candidate index st))))
    else rime_wasm_pick_candidate index st = (Inr ''{}'', st)) \<and>
   (if live st
    then (\<forall>t. fst (rime_wasm_flip_page backward st) = Inr t \<longrightarrow>
            (\<exists>obj. t = serialize (JObject obj) \<and> is_snapshot obj)) \<and>
         ((\<exists>t. fst (rime_wasm_flip_page backward st) = Inr t) \<longleftrightarrow>
            context_ok (context_var (snd (rime_wasm_flip_page backward st))))
    else rime_wasm_flip_page backward st = (Inr ''{}'', st))"
proof (cases "live st")
  case False
  then have nl: "api st = None \<or> session st = 0" by (simp add: live_def)
  have "rime_wasm_process_input keys st = (Inr ''{}'', st)"
    using nl by (auto simp: rime_wasm_process_input_def split: option.splits)
  moreover have "rime_wasm_pick_candidate index st = (Inr ''{}'', st)"
    using nl by (auto simp: rime_wasm_pick_candidate_def split: option.splits)
  moreover have "rime_wasm_flip_page backward st = (Inr ''{}'', st)"
    using nl by (auto simp: rime_wasm_flip_page_def split: option.splits)
  ultimately show ?thesis using False by simp
next
  case True
  then obtain a where a: "api st = Some a" and s: "session st \<noteq> 0" by (auto simp: live_def)
  have p2: "rime_wasm_pick_candidate index st =
      return_state (call_engine (SelectCandidateOnCurrentPage (session st) index)
        (select_candidate_on_current_page a (session st) index) st)"
    using a s by (simp add: rime_wasm_pick_candidate_def)
  have p3: "rime_wasm_flip_page backward st =
      return_state (call_engine (ChangePage (session st) (backward \<noteq> 0))
        (change_page a (session st) (backward \<noteq> 0)) st)"
    using a s by (simp add: rime_wasm_flip_page_def)
  have c1: "if live st \<and> keys \<noteq> None
    then (\<forall>t. fst (rime_wasm_process_input keys st) = Inr t \<longrightarrow>
            (\<exists>obj. t = serialize (JObject obj) \<and> is_snapshot obj)) \<and>
         ((\<exists>t. fst (rime_wasm_process_input keys st) = Inr t) \<longleftrightarrow>
            context_ok (context_var (snd (rime_wasm_process_input keys st))))
    else rime_wasm_process_input keys st = (Inr ''{}'', st)"
  proof (cases keys)
    case None
    then show ?thesis using a by (simp add: rime_wasm_process_input_def)
  next
    case (Some ks)
    have p1: "rime_wasm_process_input keys st =
        return_state (call_engine (SimulateKeySequence (session st) ks)
          (simulate_key_sequence a (session st) ks) st)"
      using a s Some by (simp add: rime_wasm_process_input_def)
    show ?thesis using True Some live_op_reply[OF a] unfolding p1 by simp
  qed
  have c2: "(\<forall>t. fst (rime_wasm_pick_candidate index st) = Inr t \<longrightarrow>
            (\<exists>obj. t = serialize (JObject obj) \<and> is_snapshot obj)) \<and>
         ((\<exists>t. fst (rime_wasm_pick_candidate index st) = Inr t) \<longleftrightarrow>
            context_ok (context_var (snd (rime_wasm_pick_candidate index st))))"
    unfolding p2 by (rule live_op_reply[OF a])
  have c3: "(\<forall>t. fst (rime_wasm_flip_page backward st) = Inr t \<longrightarrow>
            (\<exists>obj. t = serialize (JObject obj) \<and> is_snapshot obj)) \<and>
         ((\<exists>t. fst (rime_wasm_flip_page backward st) = Inr t) \<longleftrightarrow>
            context_ok (context_var (snd (rime_wasm_flip_page backward st))))"
    unfolding p3 by (rule live_op_reply[OF a])
  from c1 c2 c3 True show ?thesis by simp
qed

text \<open>
  Claim C2 as stated fails before initialisation: the three operations return the text
  \<^verbatim>\<open>{}\<close>, and no object with the snapshot keys has that text.
\<close>

theorem absent_session_reply_counterexample:
  "fst (rime_wasm_process_input (Some ''a'') (initial_state fresh_engine)) = Inr ''{}'' \<and>
   fst (rime_wasm_pick_candidate 0 (initial_state fresh_engine)) = Inr ''{}'' \<and>
   fst (rime_wasm_flip_page 0 (initial_state fresh_engine)) = Inr ''{}'' \<and>
   \<not> (\<exists>obj. ''{}'' = serialize (JObject obj) \<and> is_snapshot obj)"
proof -
  have "\<not> is_snapshot []" by (simp add: is_snapshot_def obj_keys_def snapshot_keys_def)
  then have "\<not> (\<exists>obj. ''{}'' = serialize (JObject obj) \<and> is_snapshot obj)"
    using serialize_object_empty_iff by metis
  then show ?thesis
    by (simp add: rime_wasm_process_input_def rime_wasm_pick_candidate_def
        rime_wasm_flip_page_def initial_state_def)
qed

theorem snapshot_keys_when_live_witness:
  "(\<exists>obj. fst (rime_wasm_flip_page 1 (scripted_state False None example_context)) =
            Inr (serialize (JObject obj)) \<and> is_snapshot obj) \<and>
   fst (rime_wasm_flip_page 1 (rime_wasm_destroy started_state)) = Inr ''{}'' \<and>
   fst (rime_wasm_pick_candidate 0 (rime_wasm_destroy started_state)) = Inr ''{}'' \<and>
   fst (rime_wasm_process_input (Some ''a'') (rime_wasm_destroy started_state)) = Inr ''{}'' \<and>
   fst (rime_wasm_process_input None (scripted_state False None example_context)) = Inr ''{}''"
proof -
  let ?st = "scripted_state False None example_context"
  let ?d = "rime_wasm_destroy started_state"
  obtain t where t: "fst (rime_wasm_flip_page 1 ?st) = Inr t"
    using scripted_flip_page_returns by blast
  have lv: "live ?st" by (simp add: live_def scripted_api_Some scripted_live)
  have nl: "\<not> live ?d" by (simp add: live_def destroyed_state_facts)
  from snapshot_keys_when_live[of ?st None 0 1] lv t
  have a: "\<exists>obj. fst (rime_wasm_flip_page 1 ?st) = Inr (serialize (JObject obj)) \<and>
      is_snapshot obj"
    and e: "fst (rime_wasm_process_input None ?st) = Inr ''{}''"
    by (auto simp del: serialize.simps)
  from snapshot_keys_when_live[of ?d "Some ''a''" 0 1] nl
  have b: "fst (rime_wasm_flip_page 1 ?d) = Inr ''{}''"
    and c: "fst (rime_wasm_pick_candidate 0 ?d) = Inr ''{}''"
    and d: "fst (rime_wasm_process_input (Some ''a'') ?d) = Inr ''{}''"
    by simp_all
  from a b c d e show ?thesis by blast
qed

section \<open>Destroying twice\<close>

text \<open>
  Claim C8, amended. A second \<^verbatim>\<open>rime_wasm_destroy\<close> in succession leaves the \<^verbatim>\<open>api\<close>
  pointer, the session handle, the \<^verbatim>\<open>engine_started\<close> flag and the held commit and
  context as the first left them, and destroys no session. Without the capability it
  changes nothing at all. With the capability it calls the engine's \<^verbatim>\<open>finalize\<close> once
  more: the engine's state after two invocations is \<^verbatim>\<open>finalize\<close> of its state after
  one, so it is the same exactly when \<^verbatim>\<open>finalize\<close> leaves a finalized engine as it is.
\<close>

theorem destroy_twice:
  "api (rime_wasm_destroy (rime_wasm_destroy st)) = api (rime_wasm_destroy st) \<and>
   session (rime_wasm_destroy (rime_wasm_destroy st)) = session (rime_wasm_destroy st) \<and>
   engine_started (rime_wasm_destroy (rime_wasm_destroy st)) =
     engine_started (rime_wasm_destroy st) \<and>
   commit (rime_wasm_destroy (rime_wasm_destroy st)) = commit (rime_wasm_destroy st) \<and>
   context_var (rime_wasm_destroy (rime_wasm_destroy st)) =
     context_var (rime_wasm_destroy st) \<and>
   json_buf (rime_wasm_destroy (rime_wasm_destroy st)) = json_buf (rime_wasm_destroy st) \<and>
   (case api st of
      None \<Rightarrow> rime_wasm_destroy (rime_wasm_destroy st) = rime_wasm_destroy st
    | Some a \<Rightarrow>
        calls (rime_wasm_destroy (rime_wasm_destroy st)) =
          calls (rime_wasm_destroy st) @ [Finalize] \<and>
        engine (rime_wasm_destroy (rime_wasm_destroy st)) =
          finalize a (engine (rime_wasm_destroy st)) \<and>
        (engine (rime_wasm_destroy (rime_wasm_destroy st)) = engine (rime_wasm_destroy st)) =
          (finalize a (engine (rime_wasm_destroy st)) = engine (rime_wasm_destroy st)))"
proof (cases "api st")
  case None
  then show ?thesis by (simp add: rime_wasm_destroy_def)
next
  case (Some a)
  have once: "api (rime_wasm_destroy st) = Some a \<and> session (rime_wasm_destroy st) = 0"
    using Some by (simp add: rime_wasm_destroy_def Let_def call_engine_simps)
  have "rime_wasm_destroy (rime_wasm_destroy st) =
      (call_engine Finalize (finalize a) (rime_wasm_destroy st))\<lparr>engine_started := False\<rparr>"
    using once by (simp add: rime_wasm_destroy_def[of "rime_wasm_destroy st"] Let_def)
  moreover have "engine_started (rime_wasm_destroy st) = False"
    using Some by (simp add: rime_wasm_destroy_def Let_def)
  ultimately show ?thesis using Some by (simp add: call_engine_simps)
qed

theorem destroy_twice_witness:
  "session (rime_wasm_destroy (rime_wasm_destroy started_state)) = 0 \<and>
   calls (rime_wasm_destroy (rime_wasm_destroy started_state)) =
     calls (rime_wasm_destroy started_state) @ [Finalize]"
proof -
  have "session (rime_wasm_destroy started_state) = 0"
    by (simp add: started_state_eq rime_wasm_destroy_def Let_def call_engine_def)
  then show ?thesis using destroy_twice[of started_state] by (simp add: started_state_eq)
qed

text \<open>
  Claim C8 as stated fails after a successful initialisation with an engine that counts
  its \<^verbatim>\<open>finalize\<close> calls: the engine's state after two invocations differs from its
  state after one.
\<close>

theorem destroy_twice_finalizes_twice_counterexample:
  "engine (rime_wasm_destroy started_state) =
     \<lparr>live_sessions = [], next_session = 2, finalize_calls = 1\<rparr> \<and>
   engine (rime_wasm_destroy (rime_wasm_destroy started_state)) =
     \<lparr>live_sessions = [], next_session = 2, finalize_calls = 2\<rparr> \<and>
   engine (rime_wasm_destroy (rime_wasm_destroy started_state)) \<noteq>
     engine (rime_wasm_destroy started_state)"
  by (simp add: started_state_eq rime_wasm_destroy_def Let_def call_engine_def)
     (simp add: scripted_api_def)

section \<open>Initialising twice\<close>

text \<open>
  Claim C3, at the failing input: \<^verbatim>\<open>rime_wasm_init\<close> on the state a first successful
  \<^verbatim>\<open>rime_wasm_init\<close> left. No session is destroyed; the engine then has two live
  sessions, and the binding holds the second only.
\<close>

theorem init_twice_keeps_first_session:
  "fst (rime_wasm_init (scripted_lib False None example_context) started_state) = 0 \<and>
   session started_state = 1 \<and>
   session (snd (rime_wasm_init (scripted_lib False None example_context) started_state)) = 2 \<and>
   live_sessions (engine (snd (rime_wasm_init (scripted_lib False None example_context)
      started_state))) = [1, 2] \<and>
   session_calls (calls (snd (rime_wasm_init (scripted_lib False None example_context)
      started_state))) = [CreateSession 1, CreateSession 2]"
  by (simp add: started_state_eq rime_wasm_init_def scripted_lib_def Let_def call_engine_def)
     (simp add: scripted_api_def)

end
